theory Spec2Isabelle
  imports Main "HOL-Library.Multiset"
begin

section \<open>Data model\<close>

text \<open>
  The store is the Prisma database behind the route handlers. Identifiers (UUIDs in the
  source) are opaque and are modelled as natural numbers; instants (JavaScript \<open>Date\<close>)
  are milliseconds since the epoch. Strings are lists of characters, one per code unit.
\<close>

type_synonym uuid = nat
type_synonym instant = int

text \<open>\<open>platformEnum\<close> of \<open>lib/validations/platform\<close>.\<close>

datatype Platform = instagram | linkedin | twitter | facebook | pinterest | tiktok

text \<open>The values of \<open>content_queue.status\<close>.\<close>

datatype ContentStatus = Pending | Processing | Complete | Failed | Partial

text \<open>
  A row of \<open>platform_outputs\<close>. \<open>rewrittenCopy = None\<close> is SQL NULL, the failure signal.
\<close>

record platformOutput =
  po_id :: uuid
  contentId :: uuid
  platform :: Platform
  optimizedImageUrl :: "string option"
  rewrittenCopy :: "string option"
  hashtags :: "string list"
  tokensUsed :: "int option"
  processingTimeMs :: "int option"
  modelUsed :: "string option"
  userEdited :: bool
  editedCopy :: "string option"
  editedHashtags :: "string list"
  scheduledFor :: "instant option"
  published :: bool

text \<open>A row of \<open>content_queue\<close>; its primary key is the key of the \<open>contents\<close> table.\<close>

record contentQueue =
  brandVoiceProfileId :: "uuid option"
  targetPlatforms :: "Platform list"
  status :: ContentStatus
  errorMessage :: "string option"
  processingCompletedAt :: "instant option"

text \<open>
  A row of \<open>platform_configs\<close>, with the two columns the handlers read. The column
  \<open>best_posting_time\<close> holds \<open>HH:MM:SS\<close> (the regular expression of
  \<open>updatePlatformConfigSchema\<close>); it is kept as the three numbers that
  \<open>bestTime.split(":").map(Number)\<close> yields.
\<close>

record platformConfig =
  pc_profileId :: uuid
  pc_platform :: Platform
  charLimit :: nat
  bestPostingTime :: "(nat \<times> nat \<times> nat) option"

text \<open>
  The database: \<open>contents\<close> is keyed by primary key, \<open>outputs\<close> is the table of rows in
  storage order, \<open>nextId\<close> supplies the primary key of the next created output row.
\<close>

record db =
  contents :: "uuid \<rightharpoonup> contentQueue"
  outputs :: "platformOutput list"
  configs :: "platformConfig list"
  nextId :: uuid

datatype ErrorCode =
    UNAUTHORIZED | VALIDATION_ERROR | INTERNAL_ERROR
  | CONTENT_NOT_FOUND | CONTENT_NOT_READY
  | MISSING_SCHEDULE | INVALID_SCHEDULE
  | INVALID_PLATFORMS
  | OUTPUT_NOT_FOUND | CHAR_LIMIT_EXCEEDED

text \<open>An error response: its \<open>code\<close> and its \<open>message\<close>.\<close>

type_synonym apiError = "ErrorCode \<times> string"

fun platformName :: "Platform \<Rightarrow> string" where
  "platformName instagram = ''instagram''"
| "platformName linkedin = ''linkedin''"
| "platformName twitter = ''twitter''"
| "platformName facebook = ''facebook''"
| "platformName pinterest = ''pinterest''"
| "platformName tiktok = ''tiktok''"

text \<open>The decimal numeral of a non-negative integer, as string conversion prints it.\<close>

definition digitChar :: "nat \<Rightarrow> char" where
  "digitChar n = ''0123456789'' ! (n mod 10)"

fun showNat :: "nat \<Rightarrow> string" where
  "showNat n = (if n < 10 then [digitChar n] else showNat (n div 10) @ [digitChar n])"

declare showNat.simps [simp del]

section \<open>The result callback (POST /api/n8n/callback)\<close>

datatype CallbackStatus = CbSuccess | CbFailed

record callbackOutput =
  optimized_image_url :: "string option"
  rewritten_copy :: "string option"
  cb_hashtags :: "string list option"
  tokens_used :: "int option"
  processing_time_ms :: "int option"
  model_used :: "string option"

text \<open>A body accepted by \<open>callbackSchema\<close>, with the \<open>x-n8n-secret\<close> header.\<close>

record callbackRequest =
  secret :: "string option"
  content_id :: uuid
  cb_platform :: Platform
  cb_status :: CallbackStatus
  cb_output :: "callbackOutput option"
  error_message :: "string option"

text \<open>\<open>prisma.platformOutput.findUnique\<close> on the compound key \<open>contentId_platform\<close>.\<close>

definition findOutput :: "db \<Rightarrow> uuid \<Rightarrow> Platform \<Rightarrow> platformOutput option" where
  "findOutput d cid p = find (\<lambda>r. contentId r = cid \<and> platform r = p) (outputs d)"

text \<open>
  \<open>prisma.platformOutput.update({ where: { id }, data })\<close>: the row with that primary
  key is rewritten in place.
\<close>

definition updateOutput :: "uuid \<Rightarrow> (platformOutput \<Rightarrow> platformOutput) \<Rightarrow> db \<Rightarrow> db" where
  "updateOutput i f d = d\<lparr>outputs := map (\<lambda>r. if po_id r = i then f r else r) (outputs d)\<rparr>"

text \<open>
  \<open>prisma.platformOutput.create\<close>: the columns not given take their defaults, the
  primary key is generated. The foreign key to \<open>content_queue\<close> makes the call throw
  when the content row is missing (\<open>None\<close>).
\<close>

definition createOutput ::
  "uuid \<Rightarrow> Platform \<Rightarrow> string option \<Rightarrow> string option \<Rightarrow> string list \<Rightarrow>
   int option \<Rightarrow> int option \<Rightarrow> string option \<Rightarrow> db \<Rightarrow> db option" where
  "createOutput cid p img copy tags toks ms model d =
     (if contents d cid = None then None
      else Some (d\<lparr>outputs := outputs d @
                   [\<lparr>po_id = nextId d, contentId = cid, platform = p,
                     optimizedImageUrl = img, rewrittenCopy = copy, hashtags = tags,
                     tokensUsed = toks, processingTimeMs = ms, modelUsed = model,
                     userEdited = False, editedCopy = None, editedHashtags = [],
                     scheduledFor = None, published = False\<rparr>],
                 nextId := Suc (nextId d)\<rparr>))"

text \<open>A field given as \<open>undefined\<close> in the \<open>data\<close> of an update is left as it is.\<close>

definition orKeep :: "'a option \<Rightarrow> 'a option \<Rightarrow> 'a option" where
  "orKeep new old = (case new of None \<Rightarrow> old | Some v \<Rightarrow> Some v)"

text \<open>The \<open>data\<close> of the two updates (lines 59-66 and 88-90).\<close>

definition successData :: "callbackOutput \<Rightarrow> platformOutput \<Rightarrow> platformOutput" where
  "successData out r =
     r\<lparr>optimizedImageUrl := orKeep (optimized_image_url out) (optimizedImageUrl r),
       rewrittenCopy := orKeep (rewritten_copy out) (rewrittenCopy r),
       hashtags := (case cb_hashtags out of None \<Rightarrow> [] | Some h \<Rightarrow> h),
       tokensUsed := orKeep (tokens_used out) (tokensUsed r),
       processingTimeMs := orKeep (processing_time_ms out) (processingTimeMs r),
       modelUsed := orKeep (model_used out) (modelUsed r)\<rparr>"

definition failedData :: "platformOutput \<Rightarrow> platformOutput" where
  "failedData r = r\<lparr>rewrittenCopy := None\<rparr>"

text \<open>Lines 44-102: find the row of the pair, then update it or create it.\<close>

definition recordResult :: "callbackRequest \<Rightarrow> db \<Rightarrow> db option" where
  "recordResult v d =
     (let existingOutput = findOutput d (content_id v) (cb_platform v) in
      case (cb_status v, cb_output v) of
        (CbSuccess, Some out) \<Rightarrow>
          (case existingOutput of
             Some ex \<Rightarrow> Some (updateOutput (po_id ex) (successData out) d)
           | None \<Rightarrow>
               createOutput (content_id v) (cb_platform v)
                 (optimized_image_url out) (rewritten_copy out)
                 (case cb_hashtags out of None \<Rightarrow> [] | Some h \<Rightarrow> h)
                 (tokens_used out) (processing_time_ms out) (model_used out) d)
      | (CbSuccess, None) \<Rightarrow> Some d
      | (CbFailed, _) \<Rightarrow>
          (case existingOutput of
             Some ex \<Rightarrow> Some (updateOutput (po_id ex) failedData d)
           | None \<Rightarrow>
               createOutput (content_id v) (cb_platform v) None None [] None None None d))"

text \<open>The three counts of lines 113-117, read from the store.\<close>

definition platformOutputs :: "db \<Rightarrow> uuid \<Rightarrow> platformOutput list" where
  "platformOutputs d cid = filter (\<lambda>r. contentId r = cid) (outputs d)"

definition outputCount :: "db \<Rightarrow> uuid \<Rightarrow> nat" where
  "outputCount d cid = length (platformOutputs d cid)"

definition successCount :: "db \<Rightarrow> uuid \<Rightarrow> nat" where
  "successCount d cid = length (filter (\<lambda>r. rewrittenCopy r \<noteq> None) (platformOutputs d cid))"

text \<open>Lines 122-128.\<close>

definition deriveStatus :: "nat \<Rightarrow> nat \<Rightarrow> ContentStatus" where
  "deriveStatus successCnt targetCnt =
     (if successCnt = targetCnt then Complete
      else if successCnt = 0 then Failed
      else Partial)"

text \<open>\<open>validatedData.error_message || "All platforms failed"\<close>: the empty string is falsy.\<close>

definition failureMessage :: "string option \<Rightarrow> string" where
  "failureMessage m = (case m of None \<Rightarrow> ''All platforms failed''
                        | Some s \<Rightarrow> if s = [] then ''All platforms failed'' else s)"

text \<open>Lines 104-142: the content row is written only inside \<open>outputCount >= targetCount\<close>.\<close>

definition aggregateStatus :: "instant \<Rightarrow> callbackRequest \<Rightarrow> db \<Rightarrow> db" where
  "aggregateStatus now v d =
     (case contents d (content_id v) of
        None \<Rightarrow> d
      | Some content \<Rightarrow>
          (let targetCount = length (targetPlatforms content);
               outputCnt = outputCount d (content_id v);
               successCnt = successCount d (content_id v)
           in if outputCnt \<ge> targetCount then
                (let newStatus = deriveStatus successCnt targetCount in
                 d\<lparr>contents := (contents d)(content_id v \<mapsto>
                     content\<lparr>status := newStatus,
                             processingCompletedAt := Some now,
                             errorMessage :=
                               (if newStatus = Failed then Some (failureMessage (error_message v))
                                else None)\<rparr>)\<rparr>)
              else d))"

datatype callbackAck = Acknowledged

text \<open>
  The handler. \<open>expectedSecret\<close> is \<open>process.env.N8N_CALLBACK_SECRET\<close> (unset or empty
  is falsy); an exception of the store is caught and answered with \<open>INTERNAL_ERROR\<close>.
\<close>

definition secretRejected :: "string option \<Rightarrow> string option \<Rightarrow> bool" where
  "secretRejected expectedSecret given =
     (case expectedSecret of None \<Rightarrow> False
      | Some e \<Rightarrow> e \<noteq> [] \<and> given \<noteq> Some e)"

definition POST_callback ::
  "string option \<Rightarrow> instant \<Rightarrow> callbackRequest \<Rightarrow> db \<Rightarrow> (apiError + callbackAck) \<times> db" where
  "POST_callback expectedSecret now v d =
     (if secretRejected expectedSecret (secret v)
      then (Inl (UNAUTHORIZED, ''Invalid callback secret''), d)
      else case recordResult v d of
             None \<Rightarrow> (Inl (INTERNAL_ERROR, ''An unexpected error occurred''), d)
           | Some d1 \<Rightarrow> (Inr Acknowledged, aggregateStatus now v d1))"

section \<open>Regeneration (POST /api/content/:id/regenerate)\<close>

text \<open>\<open>Array.prototype.join\<close>.\<close>

fun join :: "string \<Rightarrow> string list \<Rightarrow> string" where
  "join sep [] = []"
| "join sep [x] = x"
| "join sep (x # y # ys) = x @ sep @ join sep (y # ys)"

text \<open>The \<open>data\<close> of the success response.\<close>

record regenerateData =
  rg_content_id :: uuid
  regenerating_platforms :: "Platform list"
  rg_status :: ContentStatus

text \<open>
  \<open>session\<close> tells whether \<open>getServerSession\<close> returned one; \<open>platforms\<close> is the body,
  which \<open>regenerateSchema\<close> rejects when empty. The webhook calls that follow the two
  writes do not touch the store and are left out.
\<close>

definition POST_regenerate ::
  "bool \<Rightarrow> uuid \<Rightarrow> Platform list \<Rightarrow> db \<Rightarrow> (apiError + regenerateData) \<times> db" where
  "POST_regenerate session cid platforms d =
     (if \<not> session then (Inl (UNAUTHORIZED, ''Unauthorized''), d)
      else if platforms = [] then (Inl (VALIDATION_ERROR, ''Invalid input''), d)
      else case contents d cid of
             None \<Rightarrow> (Inl (CONTENT_NOT_FOUND, ''Content not found''), d)
           | Some content \<Rightarrow>
               (let invalidPlatforms = filter (\<lambda>p. p \<notin> set (targetPlatforms content)) platforms in
                if length invalidPlatforms > 0 then
                  (Inl (INVALID_PLATFORMS,
                        ''Platforms not in original target: '' @
                          join '', '' (map platformName invalidPlatforms)), d)
                else
                  (let d1 = d\<lparr>outputs :=
                              filter (\<lambda>r. \<not> (contentId r = cid \<and> platform r \<in> set platforms))
                                (outputs d)\<rparr>;
                       d2 = d1\<lparr>contents := (contents d1)(cid \<mapsto> content\<lparr>status := Processing\<rparr>)\<rparr>
                   in (Inr \<lparr>rg_content_id = cid, regenerating_platforms = platforms,
                             rg_status = Processing\<rparr>, d2))))"

section \<open>User edits (PATCH /api/content/:id/outputs/:outputId)\<close>

text \<open>The body; \<open>updateOutputSchema\<close> bounds the copy and wants every hashtag to start with \<open>#\<close>.\<close>

record updateOutputInput =
  in_editedCopy :: "string option"
  in_editedHashtags :: "string list option"

definition startsWithHash :: "string \<Rightarrow> bool" where
  "startsWithHash h = (case h of [] \<Rightarrow> False | c # _ \<Rightarrow> c = CHR ''#'')"

definition updateOutputSchema :: "updateOutputInput \<Rightarrow> bool" where
  "updateOutputSchema inp =
     ((case in_editedCopy inp of None \<Rightarrow> True | Some c \<Rightarrow> length c \<le> 100000) \<and>
      (case in_editedHashtags inp of None \<Rightarrow> True | Some hs \<Rightarrow> list_all startsWithHash hs))"

text \<open>\<open>content.brandVoiceProfile?.platformConfigs\<close>: absent when the content has no profile.\<close>

definition profileConfigs :: "db \<Rightarrow> contentQueue \<Rightarrow> platformConfig list option" where
  "profileConfigs d content =
     (case brandVoiceProfileId content of
        None \<Rightarrow> None
      | Some pid \<Rightarrow> Some (filter (\<lambda>c. pc_profileId c = pid) (configs d)))"

definition findConfig :: "platformConfig list option \<Rightarrow> Platform \<Rightarrow> platformConfig option" where
  "findConfig cfgs p =
     (case cfgs of None \<Rightarrow> None | Some cs \<Rightarrow> find (\<lambda>c. pc_platform c = p) cs)"

text \<open>\<open>platformConfig?.charLimit || 10000\<close>.\<close>

definition effectiveCharLimit :: "platformConfig option \<Rightarrow> nat" where
  "effectiveCharLimit cfg =
     (case cfg of None \<Rightarrow> 10000
      | Some c \<Rightarrow> if charLimit c = 0 then 10000 else charLimit c)"

record editData =
  output_id :: uuid
  user_edited :: bool
  edited_copy :: "string option"
  edited_hashtags :: "string list"

text \<open>The \<open>data\<close> of the update of lines 81-88; \<open>output\<close> is the row read at line 29.\<close>

definition applyEdit :: "updateOutputInput \<Rightarrow> platformOutput \<Rightarrow> platformOutput \<Rightarrow> platformOutput" where
  "applyEdit inp output r =
     r\<lparr>userEdited := True,
       editedCopy := (case in_editedCopy inp of None \<Rightarrow> editedCopy output | Some c \<Rightarrow> Some c),
       editedHashtags :=
         (case in_editedHashtags inp of None \<Rightarrow> editedHashtags output | Some h \<Rightarrow> h)\<rparr>"

text \<open>
  Lines 59-78: the length check runs only for a non-empty copy. \<open>output.content\<close> is the
  owning content row; the foreign key guarantees it, and reading through a missing one
  would throw.
\<close>

definition charLimitCheck :: "updateOutputInput \<Rightarrow> platformOutput \<Rightarrow> db \<Rightarrow> apiError option" where
  "charLimitCheck inp output d =
     (case in_editedCopy inp of
        None \<Rightarrow> None
      | Some c \<Rightarrow>
          if c = [] then None
          else (case contents d (contentId output) of
                  None \<Rightarrow> Some (INTERNAL_ERROR, ''An unexpected error occurred'')
                | Some content \<Rightarrow>
                    (let platformCfg = findConfig (profileConfigs d content) (platform output);
                         charLim = effectiveCharLimit platformCfg
                     in if length c > charLim then
                          Some (CHAR_LIMIT_EXCEEDED,
                                ''Copy exceeds platform character limit of '' @ showNat charLim)
                        else None)))"

definition PATCH_output ::
  "bool \<Rightarrow> uuid \<Rightarrow> uuid \<Rightarrow> updateOutputInput \<Rightarrow> db \<Rightarrow> (apiError + editData) \<times> db" where
  "PATCH_output session cid outputId inp d =
     (if \<not> session then (Inl (UNAUTHORIZED, ''Unauthorized''), d)
      else if \<not> updateOutputSchema inp then (Inl (VALIDATION_ERROR, ''Invalid input''), d)
      else case find (\<lambda>r. po_id r = outputId \<and> contentId r = cid) (outputs d) of
             None \<Rightarrow> (Inl (OUTPUT_NOT_FOUND, ''Output not found''), d)
           | Some output \<Rightarrow>
               (case charLimitCheck inp output d of
                  Some e \<Rightarrow> (Inl e, d)
                | None \<Rightarrow>
                    (let updatedOutput = applyEdit inp output output in
                     (Inr \<lparr>output_id = po_id updatedOutput,
                           user_edited = userEdited updatedOutput,
                           edited_copy = editedCopy updatedOutput,
                           edited_hashtags = editedHashtags updatedOutput\<rparr>,
                      updateOutput outputId (applyEdit inp output) d))))"

section \<open>Scheduling (POST /api/content/:id/schedule)\<close>

datatype SchedulingMode = best_times | custom

text \<open>
  \<open>customSchedules\<close> maps a platform to the instant its ISO string denotes; a platform
  without an entry (or a missing record) reads as \<open>undefined\<close>.
\<close>

record scheduleInput =
  schedulingMode :: SchedulingMode
  customSchedules :: "Platform \<rightharpoonup> instant"

text \<open>
  The server's time zone (\<open>process.env.TZ\<close> and the zone database of the host), as
  ECMAScript's \<open>LocalTZA\<close> presents it: the offset from UTC in force at an instant,
  and the offset with which a local wall-clock time is read (the one before the change
  for a skipped or repeated local time).
\<close>

record timeZone =
  utcOffset :: "instant \<Rightarrow> int"
  localOffset :: "int \<Rightarrow> int"

definition msPerDay :: int where
  "msPerDay = 86400000"

text \<open>\<open>LocalTime(t)\<close> and \<open>UTC(t)\<close> of ECMAScript.\<close>

definition LocalTime :: "timeZone \<Rightarrow> instant \<Rightarrow> int" where
  "LocalTime tz t = t + utcOffset tz t"

definition UTC :: "timeZone \<Rightarrow> int \<Rightarrow> instant" where
  "UTC tz l = l - localOffset tz l"

text \<open>
  \<open>Date.prototype.setHours(h, m, s, 0)\<close>: the local date is kept and the local time of
  day replaced, \<open>UTC(MakeDate(Day(LocalTime(t)), MakeTime(h, m, s, 0)))\<close>.
\<close>

definition setHours :: "timeZone \<Rightarrow> instant \<Rightarrow> nat \<Rightarrow> nat \<Rightarrow> nat \<Rightarrow> instant" where
  "setHours tz t h m s =
     UTC tz ((LocalTime tz t div msPerDay) * msPerDay + int (((h * 60 + m) * 60 + s) * 1000))"

text \<open>
  \<open>d.setDate(d.getDate() + 1)\<close>: \<open>MakeDay\<close> moves to the next local day number and
  the local time within the day is kept, so the local time grows by one day's length
  before it is read back as an instant.
\<close>

definition addOneDay :: "timeZone \<Rightarrow> instant \<Rightarrow> instant" where
  "addOneDay tz t = UTC tz (LocalTime tz t + msPerDay)"

text \<open>\<open>config?.bestPostingTime || "14:00:00"\<close>, split at the colons.\<close>

definition bestTime :: "platformConfig option \<Rightarrow> nat \<times> nat \<times> nat" where
  "bestTime cfg =
     (case cfg of None \<Rightarrow> (14, 0, 0)
      | Some c \<Rightarrow> (case bestPostingTime c of None \<Rightarrow> (14, 0, 0) | Some t \<Rightarrow> t))"

text \<open>Lines 87-101: the best-times branch.\<close>

definition bestTimesSchedule ::
  "timeZone \<Rightarrow> platformConfig list option \<Rightarrow> instant \<Rightarrow> Platform \<Rightarrow> instant" where
  "bestTimesSchedule tz cfgs now p =
     (case bestTime (findConfig cfgs p) of
        (hours, minutes, seconds) \<Rightarrow>
          (let scheduledTime = setHours tz now hours minutes seconds in
           if scheduledTime \<le> now then addOneDay tz scheduledTime else scheduledTime))"

text \<open>\<open>!output.rewrittenCopy\<close>: a null or empty copy is skipped.\<close>

definition eligible :: "platformOutput \<Rightarrow> bool" where
  "eligible r = (case rewrittenCopy r of None \<Rightarrow> False | Some c \<Rightarrow> c \<noteq> [])"

text \<open>
  The loop of lines 67-128 over \<open>content.platformOutputs\<close>: each eligible row is
  validated and then written before the next row is looked at; \<open>acc\<close> is
  \<open>scheduledPlatforms\<close>.
\<close>

fun scheduleLoop ::
  "timeZone \<Rightarrow> scheduleInput \<Rightarrow> platformConfig list option \<Rightarrow> instant \<Rightarrow>
   platformOutput list \<Rightarrow> (Platform \<times> instant) list \<Rightarrow> db \<Rightarrow>
   (apiError + (Platform \<times> instant) list) \<times> db" where
  "scheduleLoop tz inp cfgs now [] acc d = (Inr acc, d)"
| "scheduleLoop tz inp cfgs now (output # rest) acc d =
     (if \<not> eligible output then scheduleLoop tz inp cfgs now rest acc d
      else
        (case (if schedulingMode inp = custom
               then customSchedules inp (platform output)
               else Some (bestTimesSchedule tz cfgs now (platform output))) of
           None \<Rightarrow>
             (Inl (MISSING_SCHEDULE,
                   ''Custom schedule time required for '' @ platformName (platform output)), d)
         | Some scheduledTime \<Rightarrow>
             if scheduledTime \<le> now then
               (Inl (INVALID_SCHEDULE,
                     ''Scheduled time for '' @ platformName (platform output) @
                       '' must be in the future''), d)
             else
               scheduleLoop tz inp cfgs now rest (acc @ [(platform output, scheduledTime)])
                 (updateOutput (po_id output) (\<lambda>r. r\<lparr>scheduledFor := Some scheduledTime\<rparr>) d)))"

text \<open>
  The handler, on a server in zone \<open>tz\<close>; the scheduler webhook triggered after the loop
  does not touch the store.
\<close>

definition POST_schedule ::
  "timeZone \<Rightarrow> bool \<Rightarrow> instant \<Rightarrow> uuid \<Rightarrow> scheduleInput \<Rightarrow> db \<Rightarrow>
   (apiError + (Platform \<times> instant) list) \<times> db" where
  "POST_schedule tz session now cid inp d =
     (if \<not> session then (Inl (UNAUTHORIZED, ''Unauthorized''), d)
      else case contents d cid of
             None \<Rightarrow> (Inl (CONTENT_NOT_FOUND, ''Content not found''), d)
           | Some content \<Rightarrow>
               if status content \<noteq> Complete \<and> status content \<noteq> Partial then
                 (Inl (CONTENT_NOT_READY, ''Content must be complete or partial to schedule''), d)
               else scheduleLoop tz inp (profileConfigs d content) now (platformOutputs d cid) [] d)"

section \<open>Prompt building\<close>

text \<open>
  \<open>String.prototype.replace\<close> with a string pattern: only the first occurrence is
  replaced. \<open>findFirst\<close> splits the subject around it.
\<close>

fun findFirst :: "string \<Rightarrow> string \<Rightarrow> (string \<times> string) option" where
  "findFirst pat [] = (if pat = [] then Some ([], []) else None)"
| "findFirst pat (c # cs) =
     (if take (length pat) (c # cs) = pat then Some ([], drop (length pat) (c # cs))
      else map_option (\<lambda>(pre, post). (c # pre, post)) (findFirst pat cs))"

text \<open>
  The replacement text is expanded as ECMAScript's GetSubstitution does when there are
  no capture groups: \<open>$$\<close> is a dollar sign, \<open>$&\<close> the match, \<open>$`\<close> the text before it,
  \<open>$'\<close> the text after it; any other \<open>$\<close> stands for itself.
\<close>

fun getSubstitution :: "string \<Rightarrow> string \<Rightarrow> string \<Rightarrow> string \<Rightarrow> string" where
  "getSubstitution matched pre post [] = []"
| "getSubstitution matched pre post [c] = [c]"
| "getSubstitution matched pre post (c # x # xs) =
     (if c \<noteq> CHR ''$'' then c # getSubstitution matched pre post (x # xs)
      else if x = CHR ''$'' then CHR ''$'' # getSubstitution matched pre post xs
      else if x = CHR ''&'' then matched @ getSubstitution matched pre post xs
      else if x = CHR 0x60 then pre @ getSubstitution matched pre post xs
      else if x = CHR 0x27 then post @ getSubstitution matched pre post xs
      else c # getSubstitution matched pre post (x # xs))"

definition replace :: "string \<Rightarrow> string \<Rightarrow> string \<Rightarrow> string" where
  "replace pat rep s =
     (case findFirst pat s of
        None \<Rightarrow> s
      | Some (pre, post) \<Rightarrow> pre @ getSubstitution pat pre post rep @ post)"

text \<open>\<open>buildUserPrompt\<close> of the configuration test route; a null or empty template is falsy.\<close>

definition buildUserPrompt :: "string option \<Rightarrow> string \<Rightarrow> string \<Rightarrow> string" where
  "buildUserPrompt userPromptTemplate title body =
     (case userPromptTemplate of
        Some t \<Rightarrow>
          if t \<noteq> [] then replace ''{{body}}'' body (replace ''{{title}}'' title t)
          else ''Transform this content for social media:'' @ [CHR 0x0A, CHR 0x0A] @
               ''Title: '' @ title @ [CHR 0x0A, CHR 0x0A] @ ''Body: '' @ body
      | None \<Rightarrow>
          ''Transform this content for social media:'' @ [CHR 0x0A, CHR 0x0A] @
          ''Title: '' @ title @ [CHR 0x0A, CHR 0x0A] @ ''Body: '' @ body)"

text \<open>
  The Function node "Build AI Prompt" of the platform processor workflow reads JSON
  values; a value that is not a string is converted by \<open>ToString\<close> when it is used as
  a replacement or inside a template literal.
\<close>

datatype jsValue = JsUndefined | JsNull | JsString string | JsNumber nat

fun toString :: "jsValue \<Rightarrow> string" where
  "toString JsUndefined = ''undefined''"
| "toString JsNull = ''null''"
| "toString (JsString s) = s"
| "toString (JsNumber n) = showNat n"

fun truthy :: "jsValue \<Rightarrow> bool" where
  "truthy JsUndefined = False"
| "truthy JsNull = False"
| "truthy (JsString s) = (s \<noteq> [])"
| "truthy (JsNumber n) = (n \<noteq> 0)"

record n8nContent =
  nc_title :: jsValue
  nc_body :: jsValue

record n8nBrandProfile =
  global_tone :: jsValue
  target_audience :: jsValue
  bp_example_input_1 :: jsValue
  bp_example_output_1 :: jsValue

record n8nPlatformConfig =
  system_prompt :: jsValue
  user_prompt_template :: jsValue
  tone_override :: jsValue
  custom_instructions :: jsValue
  char_limit :: jsValue
  pc_example_input_1 :: jsValue
  pc_example_output_1 :: jsValue

record builtPrompt =
  systemPrompt :: jsValue
  userPrompt :: string

definition fewShotBlock :: "string \<Rightarrow> jsValue \<Rightarrow> jsValue \<Rightarrow> string" where
  "fewShotBlock label i out =
     (if truthy i \<and> truthy out then
        label @ [CHR 0x0A] @ ''Input: '' @ toString i @ [CHR 0x0A] @
        ''Output: '' @ toString out @ [CHR 0x0A, CHR 0x0A]
      else [])"

text \<open>
  The node's code. Calling \<open>replace\<close> on a template that is not a string throws
  (\<open>None\<close>).
\<close>

definition buildAIPrompt ::
  "n8nContent \<Rightarrow> n8nBrandProfile \<Rightarrow> n8nPlatformConfig \<Rightarrow> builtPrompt option" where
  "buildAIPrompt content brandProfile platformCfg =
     (case user_prompt_template platformCfg of
        JsString t \<Rightarrow>
          (let u1 = replace ''{{title}}'' (toString (nc_title content)) t;
               u2 = replace ''{{body}}'' (toString (nc_body content)) u1;
               u3 = replace ''{{global_tone}}'' (toString (global_tone brandProfile)) u2;
               u4 = replace ''{{platform_tone}}'' (toString (tone_override platformCfg)) u3;
               u5 = replace ''{{custom_instructions}}''
                      (toString (custom_instructions platformCfg)) u4;
               u6 = replace ''{{char_limit}}'' (toString (char_limit platformCfg)) u5;
               u7 = replace ''{{target_audience}}'' (toString (target_audience brandProfile)) u6;
               fewShotPrompt =
                 fewShotBlock ''Example 1:'' (bp_example_input_1 brandProfile)
                   (bp_example_output_1 brandProfile) @
                 fewShotBlock ''Platform Example:'' (pc_example_input_1 platformCfg)
                   (pc_example_output_1 platformCfg)
           in Some \<lparr>systemPrompt =
                       (if truthy (system_prompt platformCfg) then system_prompt platformCfg
                        else JsString ''Default system prompt...''),
                     userPrompt = fewShotPrompt @ u7\<rparr>)
      | _ \<Rightarrow> None)"

section \<open>Derived notions used in the statements\<close>

text \<open>The compound key \<open>contentId_platform\<close> of a row.\<close>

definition pairKey :: "platformOutput \<Rightarrow> uuid \<times> Platform" where
  "pairKey r = (contentId r, platform r)"

text \<open>
  What the database engine guarantees of the \<open>platform_outputs\<close> table: the compound key
  and the primary key are unique, and generated keys are fresh.
\<close>

definition wellFormed :: "db \<Rightarrow> bool" where
  "wellFormed d =
     (distinct (map pairKey (outputs d)) \<and> distinct (map po_id (outputs d)) \<and>
      list_all (\<lambda>r. po_id r < nextId d) (outputs d))"

text \<open>An update that leaves both keys of a row alone.\<close>

definition keepsKeys :: "(platformOutput \<Rightarrow> platformOutput) \<Rightarrow> bool" where
  "keepsKeys f = (\<forall>r. pairKey (f r) = pairKey r \<and> po_id (f r) = po_id r)"

text \<open>
  The observation points: the stores that the four handlers can produce, in any order
  and with any arguments, from a store without output rows.
\<close>

inductive reachable :: "db \<Rightarrow> bool" where
  fresh: "outputs d = [] \<Longrightarrow> reachable d"
| callback: "reachable d \<Longrightarrow> reachable (snd (POST_callback expectedSecret now v d))"
| regenerate: "reachable d \<Longrightarrow> reachable (snd (POST_regenerate session cid platforms d))"
| edit: "reachable d \<Longrightarrow> reachable (snd (PATCH_output session cid outputId inp d))"
| schedule: "reachable d \<Longrightarrow> reachable (snd (POST_schedule tz session now cid sched d))"

text \<open>A row with the three fields of a user edit blanked out.\<close>

definition eraseEdit :: "platformOutput \<Rightarrow> platformOutput" where
  "eraseEdit r = r\<lparr>userEdited := False, editedCopy := None, editedHashtags := []\<rparr>"











text \<open>
  Completions arriving one at a time, each with the instant at which its callback runs.
\<close>

fun recordAll :: "string option \<Rightarrow> (instant \<times> callbackRequest) list \<Rightarrow> db \<Rightarrow> db" where
  "recordAll es [] d = d"
| "recordAll es (a # rest) d = recordAll es rest (snd (POST_callback es (fst a) (snd a) d))"

text \<open>
  What the store holds for a unit, platform by platform: no row (\<open>None\<close>), or the copy of
  the row; and the two counts read off such a view.
\<close>

definition allPlatforms :: "Platform list" where
  "allPlatforms = [instagram, linkedin, twitter, facebook, pinterest, tiktok]"

definition copyView :: "db \<Rightarrow> uuid \<Rightarrow> Platform \<Rightarrow> string option option" where
  "copyView d cid p = map_option rewrittenCopy (findOutput d cid p)"

definition recordedIn :: "(Platform \<Rightarrow> string option option) \<Rightarrow> nat" where
  "recordedIn f = length (filter (\<lambda>p. f p \<noteq> None) allPlatforms)"

definition succeededIn :: "(Platform \<Rightarrow> string option option) \<Rightarrow> nat" where
  "succeededIn f = length (filter (\<lambda>p. \<exists>c. f p = Some (Some c)) allPlatforms)"

text \<open>The effect of one callback on the view of its unit, and on the unit's status.\<close>

definition outcomeCopy :: "callbackRequest \<Rightarrow> bool \<Rightarrow> string option option \<Rightarrow> string option option" where
  "outcomeCopy v contentExists x =
     (case (cb_status v, cb_output v) of
        (CbSuccess, Some out) \<Rightarrow>
          (case x of Some c \<Rightarrow> Some (orKeep (rewritten_copy out) c)
           | None \<Rightarrow> if contentExists then Some (rewritten_copy out) else None)
      | (CbSuccess, None) \<Rightarrow> x
      | (CbFailed, _) \<Rightarrow>
          (case x of Some c \<Rightarrow> Some None
           | None \<Rightarrow> if contentExists then Some None else None))"

definition arrivalEffect ::
  "string option \<Rightarrow> bool \<Rightarrow> callbackRequest \<Rightarrow>
   (Platform \<Rightarrow> string option option) \<Rightarrow> (Platform \<Rightarrow> string option option)" where
  "arrivalEffect es contentExists v f =
     (if secretRejected es (secret v) then f
      else f(cb_platform v := outcomeCopy v contentExists (f (cb_platform v))))"

definition arrivalStep ::
  "string option \<Rightarrow> nat option \<Rightarrow> callbackRequest \<Rightarrow>
   ContentStatus option \<times> (Platform \<Rightarrow> string option option) \<Rightarrow>
   ContentStatus option \<times> (Platform \<Rightarrow> string option option)" where
  "arrivalStep es tgt v a =
     (let f' = arrivalEffect es (tgt \<noteq> None) v (snd a) in
      (case tgt of
         None \<Rightarrow> fst a
       | Some T \<Rightarrow>
           if \<not> secretRejected es (secret v) \<and> T \<le> recordedIn f'
           then Some (deriveStatus (succeededIn f') T) else fst a,
       f'))"

definition unitState :: "db \<Rightarrow> uuid \<Rightarrow> ContentStatus option \<times> (Platform \<Rightarrow> string option option)" where
  "unitState d cid = (map_option status (contents d cid), copyView d cid)"

definition unitTarget :: "db \<Rightarrow> uuid \<Rightarrow> nat option" where
  "unitTarget d cid = map_option (\<lambda>c. length (targetPlatforms c)) (contents d cid)"

section \<open>Sample data\<close>

text \<open>
  One content unit, with key 1 and profile 1; the profile configures LinkedIn with a
  character ceiling of 20 and 09:00:00 as best posting time.
\<close>

definition sampleContent :: "ContentStatus \<Rightarrow> Platform list \<Rightarrow> contentQueue" where
  "sampleContent st tps =
     \<lparr>brandVoiceProfileId = Some 1, targetPlatforms = tps, status = st,
      errorMessage = None, processingCompletedAt = None\<rparr>"

definition sampleRow :: "uuid \<Rightarrow> Platform \<Rightarrow> string option \<Rightarrow> platformOutput" where
  "sampleRow i p copy =
     \<lparr>po_id = i, contentId = 1, platform = p, optimizedImageUrl = None,
      rewrittenCopy = copy, hashtags = [], tokensUsed = None, processingTimeMs = None,
      modelUsed = None, userEdited = False, editedCopy = None, editedHashtags = [],
      scheduledFor = None, published = False\<rparr>"

definition sampleDb :: "ContentStatus \<Rightarrow> Platform list \<Rightarrow> platformOutput list \<Rightarrow> db" where
  "sampleDb st tps rows =
     \<lparr>contents = [1 \<mapsto> sampleContent st tps], outputs = rows,
      configs = [\<lparr>pc_profileId = 1, pc_platform = linkedin, charLimit = 20,
                  bestPostingTime = Some (9, 0, 0)\<rparr>],
      nextId = 100\<rparr>"

definition succeededJob :: "Platform \<Rightarrow> string \<Rightarrow> callbackRequest" where
  "succeededJob p copy =
     \<lparr>secret = None, content_id = 1, cb_platform = p, cb_status = CbSuccess,
      cb_output = Some \<lparr>optimized_image_url = None, rewritten_copy = Some copy,
                        cb_hashtags = None, tokens_used = None, processing_time_ms = None,
                        model_used = None\<rparr>,
      error_message = None\<rparr>"

definition failedJob :: "Platform \<Rightarrow> callbackRequest" where
  "failedJob p =
     \<lparr>secret = None, content_id = 1, cb_platform = p, cb_status = CbFailed,
      cb_output = None, error_message = Some ''image transform error''\<rparr>"

definition outputlessJob :: "Platform \<Rightarrow> callbackRequest" where
  "outputlessJob p =
     \<lparr>secret = None, content_id = 1, cb_platform = p, cb_status = CbSuccess,
      cb_output = None, error_message = None\<rparr>"

text \<open>
  A custom schedule with an entry for each of the six platforms; at instant 1000 every
  entry is ahead except LinkedIn's.
\<close>

definition lateForLinkedin :: scheduleInput where
  "lateForLinkedin =
     \<lparr>schedulingMode = custom,
      customSchedules = [instagram \<mapsto> 2000, linkedin \<mapsto> 500, twitter \<mapsto> 3000,
                         facebook \<mapsto> 3000, pinterest \<mapsto> 3000, tiktok \<mapsto> 3000]\<rparr>"

text \<open>
  Two zones: UTC, and a zone on UTC until 2025-03-30T01:00:00Z (instant
  1 743 296 400 000) and one hour ahead from then on, as Europe/London is around that date;
  local times from 01:00 to 02:00 of that day are skipped and read with the old offset.
\<close>

definition utcZone :: timeZone where
  "utcZone = \<lparr>utcOffset = (\<lambda>u. 0), localOffset = (\<lambda>l. 0)\<rparr>"




definition sampleEdit :: updateOutputInput where
  "sampleEdit = \<lparr>in_editedCopy = Some ''Edited'', in_editedHashtags = Some [''#new'']\<rparr>"

definition nullTonePrompt :: "n8nPlatformConfig" where
  "nullTonePrompt =
     \<lparr>system_prompt = JsNull, user_prompt_template = JsString ''Tone: {{platform_tone}}'',
      tone_override = JsNull, custom_instructions = JsNull, char_limit = JsNumber 280,
      pc_example_input_1 = JsNull, pc_example_output_1 = JsNull\<rparr>"

definition sampleN8nContent :: n8nContent where
  "sampleN8nContent = \<lparr>nc_title = JsString ''T'', nc_body = JsString ''B''\<rparr>"

definition sampleBrandProfile :: n8nBrandProfile where
  "sampleBrandProfile =
     \<lparr>global_tone = JsString ''warm'', target_audience = JsNull,
      bp_example_input_1 = JsNull, bp_example_output_1 = JsNull\<rparr>"

section \<open>Facts about the store operations\<close>

lemma outputs_aggregateStatus [simp]: "outputs (aggregateStatus now v d) = outputs d"
  by (simp add: aggregateStatus_def Let_def split: option.splits)

lemma nextId_aggregateStatus [simp]: "nextId (aggregateStatus now v d) = nextId d"
  by (simp add: aggregateStatus_def Let_def split: option.splits)

lemma outputCount_aggregateStatus [simp]:
  "outputCount (aggregateStatus now v d) cid = outputCount d cid"
  by (simp add: outputCount_def platformOutputs_def)

lemma successCount_aggregateStatus [simp]:
  "successCount (aggregateStatus now v d) cid = successCount d cid"
  by (simp add: successCount_def platformOutputs_def)

lemma contents_updateOutput [simp]: "contents (updateOutput i f d) = contents d"
  by (simp add: updateOutput_def)

lemma createOutput_Some:
  assumes "createOutput cid p img copy tags toks ms model d = Some d1"
  shows "contents d cid \<noteq> None" and "contents d1 = contents d"
    and "nextId d1 = Suc (nextId d)"
    and "\<exists>row. outputs d1 = outputs d @ [row] \<and> contentId row = cid \<and> platform row = p \<and>
               rewrittenCopy row = copy \<and> po_id row = nextId d"
  using assms by (auto simp: createOutput_def split: if_splits)

lemma createOutput_None:
  "createOutput cid p img copy tags toks ms model d = None \<longleftrightarrow> contents d cid = None"
  by (simp add: createOutput_def)

lemma recordResult_contents: "recordResult v d = Some d1 \<Longrightarrow> contents d1 = contents d"
  by (auto simp: recordResult_def Let_def split: CallbackStatus.splits option.splits
           dest: createOutput_Some(2))

text \<open>The two ways a callback ends.\<close>

lemma POST_callback_cases:
  "POST_callback es now v d = (res, d') \<Longrightarrow>
   (d' = d \<and> (\<exists>e. res = Inl e)) \<or>
   (\<exists>d1. recordResult v d = Some d1 \<and> d' = aggregateStatus now v d1 \<and> res = Inr Acknowledged)"
  by (auto simp: POST_callback_def split: if_splits option.splits)

text \<open>The content row after aggregation, in terms of the counts it read.\<close>

lemma aggregateStatus_content:
  assumes "contents d (content_id v) = Some content"
  shows "\<exists>content'. contents (aggregateStatus now v d) (content_id v) = Some content' \<and>
           targetPlatforms content' = targetPlatforms content \<and>
           (outputCount d (content_id v) < length (targetPlatforms content) \<longrightarrow>
              content' = content) \<and>
           (length (targetPlatforms content) \<le> outputCount d (content_id v) \<longrightarrow>
              status content' =
                deriveStatus (successCount d (content_id v)) (length (targetPlatforms content)) \<and>
              (errorMessage content' \<noteq> None \<longleftrightarrow> status content' = Failed))"
  using assms by (simp add: aggregateStatus_def Let_def)

subsection \<open>Keys\<close>

lemma keepsKeys_success: "keepsKeys (successData out)"
  by (simp add: keepsKeys_def pairKey_def successData_def)

lemma keepsKeys_failed: "keepsKeys failedData"
  by (simp add: keepsKeys_def pairKey_def failedData_def)

lemma keepsKeys_scheduled: "keepsKeys (\<lambda>r. r\<lparr>scheduledFor := t\<rparr>)"
  by (simp add: keepsKeys_def pairKey_def)

lemma keepsKeys_applyEdit: "keepsKeys (applyEdit inp found)"
  by (simp add: keepsKeys_def pairKey_def applyEdit_def)

lemma keys_updateOutput:
  "keepsKeys f \<Longrightarrow> map pairKey (outputs (updateOutput i f d)) = map pairKey (outputs d)"
  by (simp add: updateOutput_def keepsKeys_def)

lemma distinct_key_count:
  "distinct (map f xs) \<Longrightarrow> length (filter (\<lambda>x. f x = k) xs) \<le> 1"
proof (induction xs)
  case Nil
  then show ?case by simp
next
  case (Cons x xs)
  show ?case
  proof (cases "f x = k")
    case True
    with Cons.prems have "\<forall>y \<in> set xs. f y \<noteq> k" by (auto simp: image_iff)
    then have "filter (\<lambda>x. f x = k) xs = []" by (simp add: filter_empty_conv)
    with True show ?thesis by simp
  next
    case False
    with Cons show ?thesis by simp
  qed
qed

lemma wellFormed_update:
  assumes "wellFormed d" and "keepsKeys f"
  shows "wellFormed (updateOutput i f d)"
proof -
  have k: "map pairKey (outputs (updateOutput i f d)) = map pairKey (outputs d)"
    using assms(2) by (simp add: updateOutput_def keepsKeys_def)
  have j: "map po_id (outputs (updateOutput i f d)) = map po_id (outputs d)"
    using assms(2) by (simp add: updateOutput_def keepsKeys_def)
  have b: "list_all (\<lambda>r. po_id r < nextId (updateOutput i f d)) (outputs (updateOutput i f d))"
    using assms by (auto simp: wellFormed_def list_all_iff updateOutput_def keepsKeys_def)
  from assms(1) k j b show ?thesis by (simp add: wellFormed_def)
qed

lemma wellFormed_create:
  assumes "wellFormed d" and "findOutput d cid p = None"
      and "createOutput cid p img copy tags toks ms model d = Some d1"
  shows "wellFormed d1"
proof -
  from createOutput_Some(4) [OF assms(3)] obtain row where
    row: "outputs d1 = outputs d @ [row]" "contentId row = cid" "platform row = p"
         "po_id row = nextId d" by blast
  from assms(2) have fresh: "pairKey row \<notin> set (map pairKey (outputs d))"
    using row(2,3) by (auto simp: findOutput_def find_None_iff pairKey_def)
  from assms(1) have lt: "\<forall>r \<in> set (outputs d). po_id r < nextId d"
    by (simp add: wellFormed_def list_all_iff)
  then have freshId: "po_id row \<notin> set (map po_id (outputs d))"
    using row(4) by auto
  from assms(1) fresh freshId lt row createOutput_Some(3) [OF assms(3)]
  show ?thesis by (auto simp: wellFormed_def list_all_iff less_Suc_eq)
qed

lemma update_touches_only:
  assumes ids: "distinct (map po_id (outputs d))"
      and ex: "findOutput d cid p = Some ex"
      and f: "keepsKeys f"
  shows "filter (\<lambda>r. pairKey r \<noteq> (cid, p)) (outputs (updateOutput (po_id ex) f d)) =
         filter (\<lambda>r. pairKey r \<noteq> (cid, p)) (outputs d)"
proof -
  let ?g = "\<lambda>r. if po_id r = po_id ex then f r else r"
  from ids have inj: "inj_on po_id (set (outputs d))" by (simp add: distinct_map)
  from ex have exm: "ex \<in> set (outputs d)" "pairKey ex = (cid, p)"
    by (auto simp: findOutput_def find_Some_iff pairKey_def)
  have keep: "\<And>r. pairKey (?g r) = pairKey r" using f by (simp add: keepsKeys_def)
  have "filter (\<lambda>r. pairKey r \<noteq> (cid, p)) (map ?g (outputs d)) =
        map ?g (filter (\<lambda>r. pairKey r \<noteq> (cid, p)) (outputs d))"
    by (simp add: filter_map comp_def keep)
  also have "\<dots> = filter (\<lambda>r. pairKey r \<noteq> (cid, p)) (outputs d)"
  proof (rule map_idI)
    fix r assume "r \<in> set (filter (\<lambda>r. pairKey r \<noteq> (cid, p)) (outputs d))"
    then have "r \<in> set (outputs d)" "r \<noteq> ex" using exm(2) by auto
    with inj exm(1) have "po_id r \<noteq> po_id ex" by (auto dest: inj_onD)
    then show "?g r = r" by simp
  qed
  finally show ?thesis by (simp add: updateOutput_def)
qed

text \<open>What recording does to the table: an update in place, or one new row for the pair.\<close>

lemma recordResult_table:
  assumes wf: "wellFormed d" and rec: "recordResult v d = Some d1"
  shows "(findOutput d (content_id v) (cb_platform v) \<noteq> None \<longrightarrow>
            map pairKey (outputs d1) = map pairKey (outputs d) \<and>
            filter (\<lambda>r. pairKey r \<noteq> (content_id v, cb_platform v)) (outputs d1) =
            filter (\<lambda>r. pairKey r \<noteq> (content_id v, cb_platform v)) (outputs d)) \<and>
         (findOutput d (content_id v) (cb_platform v) = None \<longrightarrow>
            outputs d1 = outputs d \<or>
            (\<exists>row. outputs d1 = outputs d @ [row] \<and> pairKey row = (content_id v, cb_platform v)))"
proof (cases "findOutput d (content_id v) (cb_platform v)")
  case None
  with rec show ?thesis
    by (auto simp: recordResult_def Let_def pairKey_def
             split: CallbackStatus.splits option.splits dest!: createOutput_Some(4))
next
  case (Some ex)
  from wf have ids: "distinct (map po_id (outputs d))" by (simp add: wellFormed_def)
  from rec Some have "d1 = d \<or> d1 = updateOutput (po_id ex) failedData d \<or>
          (\<exists>out. d1 = updateOutput (po_id ex) (successData out) d)"
    by (auto simp: recordResult_def Let_def split: CallbackStatus.splits option.splits)
  then show ?thesis
    using Some update_touches_only [OF ids Some]
    by (auto simp: keys_updateOutput keepsKeys_failed keepsKeys_success)
qed

subsection \<open>The view of a unit\<close>

lemma set_allPlatforms: "set allPlatforms = UNIV"
proof -
  have "p \<in> set allPlatforms" for p by (cases p) (simp_all add: allPlatforms_def)
  then show ?thesis by auto
qed

lemma distinct_allPlatforms: "distinct allPlatforms"
  by (simp add: allPlatforms_def)

lemma count_allPlatforms: "length (filter Q allPlatforms) = card {p. Q p}"
  by (simp add: distinct_length_filter [OF distinct_allPlatforms] set_allPlatforms)

lemma unit_platforms_distinct:
  assumes "distinct (map pairKey xs)"
  shows "distinct (map platform (filter (\<lambda>r. contentId r = cid \<and> Q r) xs))"
proof -
  from assms have d: "distinct xs" and inj: "inj_on pairKey (set xs)"
    by (simp_all add: distinct_map)
  have "inj_on platform (set (filter (\<lambda>r. contentId r = cid \<and> Q r) xs))"
  proof (rule inj_onI)
    fix x y
    assume "x \<in> set (filter (\<lambda>r. contentId r = cid \<and> Q r) xs)"
       and "y \<in> set (filter (\<lambda>r. contentId r = cid \<and> Q r) xs)"
       and "platform x = platform y"
    then have "x \<in> set xs" "y \<in> set xs" "pairKey x = pairKey y"
      by (simp_all add: pairKey_def)
    with inj show "x = y" by (auto dest: inj_onD)
  qed
  with d show ?thesis by (simp add: distinct_map)
qed

lemma unit_count_card:
  assumes "distinct (map pairKey xs)"
  shows "length (filter (\<lambda>r. contentId r = cid \<and> Q r) xs) =
         card {p. \<exists>r \<in> set xs. contentId r = cid \<and> Q r \<and> platform r = p}"
proof -
  have "length (filter (\<lambda>r. contentId r = cid \<and> Q r) xs) =
        length (map platform (filter (\<lambda>r. contentId r = cid \<and> Q r) xs))" by simp
  also have "\<dots> = card (set (map platform (filter (\<lambda>r. contentId r = cid \<and> Q r) xs)))"
    using unit_platforms_distinct [OF assms] by (simp only: distinct_card)
  also have "set (map platform (filter (\<lambda>r. contentId r = cid \<and> Q r) xs)) =
             {p. \<exists>r \<in> set xs. contentId r = cid \<and> Q r \<and> platform r = p}" by auto
  finally show ?thesis .
qed

lemma find_unique_row:
  assumes "distinct (map pairKey xs)" and "r \<in> set xs"
  shows "find (\<lambda>x. contentId x = contentId r \<and> platform x = platform r) xs = Some r"
proof -
  from assms(1) have inj: "inj_on pairKey (set xs)" by (simp add: distinct_map)
  obtain x where x: "find (\<lambda>x. contentId x = contentId r \<and> platform x = platform r) xs = Some x"
    using assms(2) by (cases "find (\<lambda>x. contentId x = contentId r \<and> platform x = platform r) xs")
      (auto simp: find_None_iff)
  then have "x \<in> set xs" "pairKey x = pairKey r"
    by (auto simp: find_Some_iff pairKey_def)
  with inj assms(2) have "x = r" by (auto dest: inj_onD)
  with x show ?thesis by simp
qed

lemma findOutput_Some_iff:
  assumes "distinct (map pairKey (outputs d))"
  shows "findOutput d cid p = Some r \<longleftrightarrow> r \<in> set (outputs d) \<and> contentId r = cid \<and> platform r = p"
proof
  assume "findOutput d cid p = Some r"
  then show "r \<in> set (outputs d) \<and> contentId r = cid \<and> platform r = p"
    by (auto simp: findOutput_def find_Some_iff)
next
  assume "r \<in> set (outputs d) \<and> contentId r = cid \<and> platform r = p"
  with find_unique_row [OF assms, of r] show "findOutput d cid p = Some r"
    by (auto simp: findOutput_def)
qed

lemma outputCount_view:
  assumes "distinct (map pairKey (outputs d))"
  shows "outputCount d cid = recordedIn (copyView d cid)"
proof -
  have "outputCount d cid = length (filter (\<lambda>r. contentId r = cid \<and> True) (outputs d))"
    by (simp add: outputCount_def platformOutputs_def)
  also have "\<dots> = card {p. \<exists>r \<in> set (outputs d). contentId r = cid \<and> True \<and> platform r = p}"
    by (rule unit_count_card [OF assms])
  also have "{p. \<exists>r \<in> set (outputs d). contentId r = cid \<and> True \<and> platform r = p} =
             {p. copyView d cid p \<noteq> None}"
    by (auto simp: copyView_def findOutput_Some_iff [OF assms])
  finally show ?thesis by (simp add: recordedIn_def count_allPlatforms)
qed

lemma successCount_view:
  assumes "distinct (map pairKey (outputs d))"
  shows "successCount d cid = succeededIn (copyView d cid)"
proof -
  have "successCount d cid =
        length (filter (\<lambda>r. contentId r = cid \<and> rewrittenCopy r \<noteq> None) (outputs d))"
    by (simp add: successCount_def platformOutputs_def conj_commute)
  also have "\<dots> = card {p. \<exists>r \<in> set (outputs d). contentId r = cid \<and> rewrittenCopy r \<noteq> None \<and> platform r = p}"
    by (rule unit_count_card [OF assms])
  also have "{p. \<exists>r \<in> set (outputs d). contentId r = cid \<and> rewrittenCopy r \<noteq> None \<and> platform r = p} =
             {p. \<exists>c. copyView d cid p = Some (Some c)}"
    by (auto simp: copyView_def findOutput_Some_iff [OF assms])
  finally show ?thesis by (simp add: succeededIn_def count_allPlatforms)
qed

lemma find_map_keep:
  "(\<And>x. P (g x) = P x) \<Longrightarrow> find P (map g xs) = map_option g (find P xs)"
  by (induction xs) auto

lemma find_snoc:
  "find P (xs @ [y]) = (case find P xs of None \<Rightarrow> if P y then Some y else None | Some x \<Rightarrow> Some x)"
  by (induction xs) auto

lemma findOutput_updateOutput:
  assumes "keepsKeys f"
  shows "findOutput (updateOutput i f d) c q =
         map_option (\<lambda>r. if po_id r = i then f r else r) (findOutput d c q)"
proof -
  have "\<And>x. (contentId (if po_id x = i then f x else x) = c \<and>
              platform (if po_id x = i then f x else x) = q) = (contentId x = c \<and> platform x = q)"
    using assms by (auto simp: keepsKeys_def pairKey_def)
  then show ?thesis
    unfolding findOutput_def updateOutput_def
    by (simp add: find_map_keep [where P = "\<lambda>r. contentId r = c \<and> platform r = q"])
qed

lemma copyView_update:
  assumes ids: "distinct (map po_id (outputs d))"
      and ex: "findOutput d cid p = Some ex"
      and f: "keepsKeys f"
  shows "copyView (updateOutput (po_id ex) f d) cid =
         (copyView d cid)(p := Some (rewrittenCopy (f ex)))"
proof (rule ext)
  fix q
  from ids have inj: "inj_on po_id (set (outputs d))" by (simp add: distinct_map)
  from ex have exm: "ex \<in> set (outputs d)" "platform ex = p"
    by (auto simp: findOutput_def find_Some_iff)
  show "copyView (updateOutput (po_id ex) f d) cid q =
        ((copyView d cid)(p := Some (rewrittenCopy (f ex)))) q"
  proof (cases "q = p")
    case True
    then show ?thesis
      by (simp add: copyView_def findOutput_updateOutput [OF f] ex)
  next
    case False
    show ?thesis
    proof (cases "findOutput d cid q")
      case None
      with False show ?thesis by (simp add: copyView_def findOutput_updateOutput [OF f])
    next
      case (Some r)
      then have rm: "r \<in> set (outputs d)" "platform r = q"
        by (auto simp: findOutput_def find_Some_iff)
      with exm False have "r \<noteq> ex" by auto
      with inj rm(1) exm(1) have "po_id r \<noteq> po_id ex" by (auto dest: inj_onD)
      with False Some show ?thesis
        by (simp add: copyView_def findOutput_updateOutput [OF f])
    qed
  qed
qed

lemma copyView_create:
  assumes "findOutput d cid p = None"
      and "createOutput cid p img copy tags toks ms model d = Some d1"
  shows "copyView d1 cid = (copyView d cid)(p := Some copy)"
proof (rule ext)
  fix q
  from createOutput_Some(4) [OF assms(2)] obtain row where
    row: "outputs d1 = outputs d @ [row]" "contentId row = cid" "platform row = p"
         "rewrittenCopy row = copy" by blast
  show "copyView d1 cid q = ((copyView d cid)(p := Some copy)) q"
    using assms(1) row
    by (auto simp: copyView_def findOutput_def find_snoc split: option.splits)
qed

lemma recordResult_step:
  assumes wf: "wellFormed d" and rec: "recordResult v d = Some d1"
  shows "wellFormed d1"
    and "contents d1 = contents d"
    and "copyView d1 (content_id v) =
         (copyView d (content_id v))(cb_platform v :=
            outcomeCopy v (contents d (content_id v) \<noteq> None)
              (copyView d (content_id v) (cb_platform v)))"
proof -
  from wf have ids: "distinct (map po_id (outputs d))" by (simp add: wellFormed_def)
  show "wellFormed d1"
    using rec wf
    by (auto simp: recordResult_def Let_def wellFormed_update keepsKeys_success keepsKeys_failed
             split: CallbackStatus.splits option.splits intro: wellFormed_create)
  show "contents d1 = contents d"
    using rec
    by (auto simp: recordResult_def Let_def updateOutput_def
             split: CallbackStatus.splits option.splits dest: createOutput_Some(2))
  show "copyView d1 (content_id v) =
         (copyView d (content_id v))(cb_platform v :=
            outcomeCopy v (contents d (content_id v) \<noteq> None)
              (copyView d (content_id v) (cb_platform v)))"
  proof (cases "findOutput d (content_id v) (cb_platform v)")
    case None
    then have v0: "copyView d (content_id v) (cb_platform v) = None" by (simp add: copyView_def)
    show ?thesis
    proof (cases "cb_status v")
      case CbSuccess
      show ?thesis
      proof (cases "cb_output v")
        case None
        with CbSuccess rec have "d1 = d" by (simp add: recordResult_def Let_def)
        with CbSuccess None show ?thesis by (simp add: outcomeCopy_def)
      next
        case (Some out)
        with CbSuccess \<open>findOutput d (content_id v) (cb_platform v) = None\<close> rec
        have c: "createOutput (content_id v) (cb_platform v)
                 (optimized_image_url out) (rewritten_copy out)
                 (case cb_hashtags out of None \<Rightarrow> [] | Some h \<Rightarrow> h)
                 (tokens_used out) (processing_time_ms out) (model_used out) d = Some d1"
          by (simp add: recordResult_def Let_def)
        from copyView_create [OF \<open>findOutput d (content_id v) (cb_platform v) = None\<close> c]
             createOutput_Some(1) [OF c] CbSuccess Some v0
        show ?thesis by (simp add: outcomeCopy_def)
      qed
    next
      case CbFailed
      with \<open>findOutput d (content_id v) (cb_platform v) = None\<close> rec
      have c: "createOutput (content_id v) (cb_platform v) None None [] None None None d = Some d1"
        by (simp add: recordResult_def Let_def)
      from copyView_create [OF \<open>findOutput d (content_id v) (cb_platform v) = None\<close> c]
           createOutput_Some(1) [OF c] CbFailed v0
      show ?thesis by (simp add: outcomeCopy_def)
    qed
  next
    case (Some ex)
    then have v1: "copyView d (content_id v) (cb_platform v) = Some (rewrittenCopy ex)"
      by (simp add: copyView_def)
    show ?thesis
    proof (cases "cb_status v")
      case CbSuccess
      show ?thesis
      proof (cases "cb_output v")
        case None
        with CbSuccess rec have "d1 = d" by (simp add: recordResult_def Let_def)
        with CbSuccess None show ?thesis by (simp add: outcomeCopy_def)
      next
        case (Some out)
        with CbSuccess \<open>findOutput d (content_id v) (cb_platform v) = Some ex\<close> rec
        have "d1 = updateOutput (po_id ex) (successData out) d"
          by (simp add: recordResult_def Let_def)
        with copyView_update [OF ids \<open>findOutput d (content_id v) (cb_platform v) = Some ex\<close>
               keepsKeys_success [of out]] CbSuccess Some v1
        show ?thesis by (simp add: outcomeCopy_def successData_def)
      qed
    next
      case CbFailed
      with \<open>findOutput d (content_id v) (cb_platform v) = Some ex\<close> rec
      have "d1 = updateOutput (po_id ex) failedData d"
        by (simp add: recordResult_def Let_def)
      with copyView_update [OF ids \<open>findOutput d (content_id v) (cb_platform v) = Some ex\<close>
             keepsKeys_failed] CbFailed v1
      show ?thesis by (simp add: outcomeCopy_def failedData_def)
    qed
  qed
qed

lemma recordResult_None:
  assumes "recordResult v d = None"
  shows "outcomeCopy v (contents d (content_id v) \<noteq> None) (copyView d (content_id v) (cb_platform v))
         = copyView d (content_id v) (cb_platform v)"
  using assms
  by (auto simp: recordResult_def Let_def outcomeCopy_def copyView_def createOutput_None
           split: CallbackStatus.splits option.splits)

lemma wellFormed_aggregateStatus [simp]: "wellFormed (aggregateStatus now v d) = wellFormed d"
  by (simp add: wellFormed_def)

lemma copyView_aggregateStatus [simp]: "copyView (aggregateStatus now v d) cid = copyView d cid"
  by (rule ext) (simp add: copyView_def findOutput_def)

lemma unitTarget_aggregateStatus [simp]:
  "unitTarget (aggregateStatus now v d) cid = unitTarget d cid"
  by (simp add: unitTarget_def aggregateStatus_def Let_def split: option.splits)

lemma status_aggregateStatus:
  assumes "distinct (map pairKey (outputs d))"
  shows "map_option status (contents (aggregateStatus now v d) (content_id v)) =
         (case unitTarget d (content_id v) of
            None \<Rightarrow> map_option status (contents d (content_id v))
          | Some T \<Rightarrow>
              if T \<le> recordedIn (copyView d (content_id v))
              then Some (deriveStatus (succeededIn (copyView d (content_id v))) T)
              else map_option status (contents d (content_id v)))"
  by (simp add: aggregateStatus_def unitTarget_def Let_def
        outputCount_view [OF assms] successCount_view [OF assms] split: option.splits)

lemma callback_step:
  assumes wf: "wellFormed d"
  shows "wellFormed (snd (POST_callback es now v d))"
    and "unitTarget (snd (POST_callback es now v d)) (content_id v) = unitTarget d (content_id v)"
    and "unitState (snd (POST_callback es now v d)) (content_id v) =
         arrivalStep es (unitTarget d (content_id v)) v (unitState d (content_id v))"
proof -
  consider (rejected) "secretRejected es (secret v)"
    | (threw) "\<not> secretRejected es (secret v)" "recordResult v d = None"
    | (recorded) d1 where "\<not> secretRejected es (secret v)" "recordResult v d = Some d1"
    by (cases "recordResult v d") auto
  then have "wellFormed (snd (POST_callback es now v d)) \<and>
     unitTarget (snd (POST_callback es now v d)) (content_id v) = unitTarget d (content_id v) \<and>
     unitState (snd (POST_callback es now v d)) (content_id v) =
         arrivalStep es (unitTarget d (content_id v)) v (unitState d (content_id v))"
  proof cases
    case rejected
    then show ?thesis
      using wf by (simp add: POST_callback_def arrivalStep_def arrivalEffect_def unitState_def
                        Let_def split: option.splits)
  next
    case threw
    from threw(2) have none: "contents d (content_id v) = None"
      by (auto simp: recordResult_def Let_def createOutput_None
               split: CallbackStatus.splits option.splits)
    have "arrivalEffect es False v (copyView d (content_id v)) = copyView d (content_id v)"
      using recordResult_None [OF threw(2)] none threw(1) by (simp add: arrivalEffect_def)
    then show ?thesis
      using wf threw none
      by (simp add: POST_callback_def arrivalStep_def unitState_def unitTarget_def)
  next
    case recorded
    note step = recordResult_step [OF wf recorded(2)]
    from step(1) have keys: "distinct (map pairKey (outputs d1))" by (simp add: wellFormed_def)
    have d': "snd (POST_callback es now v d) = aggregateStatus now v d1"
      using recorded by (simp add: POST_callback_def)
    have t: "unitTarget d1 (content_id v) = unitTarget d (content_id v)"
      by (simp add: unitTarget_def step(2))
    show ?thesis
    proof (cases "contents d (content_id v)")
      case None
      then have e: "arrivalEffect es False v (copyView d (content_id v)) = copyView d1 (content_id v)"
        using recorded(1) by (simp add: arrivalEffect_def step(3))
      from None have tn: "unitTarget d (content_id v) = None" by (simp add: unitTarget_def)
      show ?thesis
        unfolding d'
        using step(1)
        by (simp add: unitState_def arrivalStep_def Let_def status_aggregateStatus [OF keys]
              t tn e step(2) None)
    next
      case (Some content)
      then have e: "arrivalEffect es True v (copyView d (content_id v)) = copyView d1 (content_id v)"
        using recorded(1) by (simp add: arrivalEffect_def step(3))
      from Some have ts: "unitTarget d (content_id v) = Some (length (targetPlatforms content))"
        by (simp add: unitTarget_def)
      show ?thesis
        unfolding d'
        using step(1)
        by (simp add: unitState_def arrivalStep_def Let_def status_aggregateStatus [OF keys]
              t ts e step(2) Some recorded(1))
    qed
  qed
  then show "wellFormed (snd (POST_callback es now v d))"
    and "unitTarget (snd (POST_callback es now v d)) (content_id v) = unitTarget d (content_id v)"
    and "unitState (snd (POST_callback es now v d)) (content_id v) =
         arrivalStep es (unitTarget d (content_id v)) v (unitState d (content_id v))"
    by simp_all
qed

lemma recordAll_fold:
  assumes "wellFormed d" and "\<forall>a \<in> set xs. content_id (snd a) = cid"
  shows "unitState (recordAll es xs d) cid =
         fold (arrivalStep es (unitTarget d cid)) (map snd xs) (unitState d cid)"
  using assms
proof (induction xs arbitrary: d)
  case Nil
  show ?case by simp
next
  case (Cons a rest)
  from Cons.prems(2) have c: "content_id (snd a) = cid" by simp
  let ?d1 = "snd (POST_callback es (fst a) (snd a) d)"
  from callback_step [OF Cons.prems(1), of es "fst a" "snd a"] c
  have wf1: "wellFormed ?d1" and t1: "unitTarget ?d1 cid = unitTarget d cid"
    and s1: "unitState ?d1 cid = arrivalStep es (unitTarget d cid) (snd a) (unitState d cid)"
    by simp_all
  from Cons.prems(2) have "\<forall>a \<in> set rest. content_id (snd a) = cid" by simp
  from Cons.IH [OF wf1 this] show ?case by (simp add: t1 s1)
qed

lemma filter_length_mono:
  "(\<And>x. x \<in> set xs \<Longrightarrow> P x \<Longrightarrow> Q x) \<Longrightarrow> length (filter P xs) \<le> length (filter Q xs)"
  by (induction xs) auto

lemma outcomeCopy_keeps: "x \<noteq> None \<Longrightarrow> outcomeCopy v ce x \<noteq> None"
  by (auto simp: outcomeCopy_def split: CallbackStatus.splits option.splits)

lemma recordedIn_arrivalEffect: "recordedIn f \<le> recordedIn (arrivalEffect es ce v f)"
  unfolding recordedIn_def
proof (rule filter_length_mono)
  fix p assume p: "f p \<noteq> None"
  show "arrivalEffect es ce v f p \<noteq> None"
  proof (cases "secretRejected es (secret v) \<or> p \<noteq> cb_platform v")
    case True
    with p show ?thesis by (auto simp: arrivalEffect_def)
  next
    case False
    with p have "outcomeCopy v ce (f (cb_platform v)) \<noteq> None"
      by (simp add: outcomeCopy_keeps)
    with False show ?thesis by (simp add: arrivalEffect_def)
  qed
qed

lemma arrivalEffect_rejected: "secretRejected es (secret v) \<Longrightarrow> arrivalEffect es ce v f = f"
  by (simp add: arrivalEffect_def)

lemma arrivalEffect_commute:
  "cb_platform v \<noteq> cb_platform w \<Longrightarrow>
   arrivalEffect es ce v \<circ> arrivalEffect es ce w = arrivalEffect es ce w \<circ> arrivalEffect es ce v"
  by (rule ext) (auto simp: arrivalEffect_def fun_upd_twist)

lemma snd_fold_arrivalStep:
  "snd (fold (arrivalStep es tgt) vs a) = fold (arrivalEffect es (tgt \<noteq> None)) vs (snd a)"
  by (induction vs arbitrary: a) (simp_all add: arrivalStep_def Let_def)

lemma snd_arrivalStep:
  "snd (arrivalStep es tgt v a) = arrivalEffect es (tgt \<noteq> None) v (snd a)"
  by (simp add: arrivalStep_def Let_def)

lemma fst_arrivalStep_None: "fst (arrivalStep es None v a) = fst a"
  by (simp add: arrivalStep_def Let_def)

lemma fst_arrivalStep_Some:
  "fst (arrivalStep es (Some T) v a) =
     (if \<not> secretRejected es (secret v) \<and> T \<le> recordedIn (arrivalEffect es True v (snd a))
      then Some (deriveStatus (succeededIn (arrivalEffect es True v (snd a))) T)
      else fst a)"
  by (simp add: arrivalStep_def Let_def)

lemma fst_fold_arrivalStep_None: "fst (fold (arrivalStep es None) vs a) = fst a"
  by (induction vs arbitrary: a) (simp_all add: fst_arrivalStep_None)

lemma fst_fold_arrivalStep_Some:
  "fst (fold (arrivalStep es (Some T)) vs a) =
     (if (\<exists>v \<in> set vs. \<not> secretRejected es (secret v)) \<and>
         T \<le> recordedIn (fold (arrivalEffect es True) vs (snd a))
      then Some (deriveStatus (succeededIn (fold (arrivalEffect es True) vs (snd a))) T)
      else fst a)"
proof (induction vs rule: rev_induct)
  case Nil
  show ?case by simp
next
  case (snoc v vs)
  let ?A = "fold (arrivalStep es (Some T)) vs a"
  let ?F = "fold (arrivalEffect es True) vs (snd a)"
  have sA: "snd ?A = ?F" using snd_fold_arrivalStep [of es "Some T" vs a] by simp
  have mono: "recordedIn ?F \<le> recordedIn (arrivalEffect es True v ?F)"
    by (rule recordedIn_arrivalEffect)
  have step: "fst (fold (arrivalStep es (Some T)) (vs @ [v]) a) =
     (if \<not> secretRejected es (secret v) \<and> T \<le> recordedIn (arrivalEffect es True v ?F)
      then Some (deriveStatus (succeededIn (arrivalEffect es True v ?F)) T)
      else fst ?A)"
    by (simp add: fst_arrivalStep_Some sA)
  show ?case
  proof (cases "secretRejected es (secret v)")
    case True
    then show ?thesis
      unfolding step snoc.IH by (simp add: arrivalEffect_rejected)
  next
    case False
    show ?thesis
    proof (cases "T \<le> recordedIn (arrivalEffect es True v ?F)")
      case True
      with False show ?thesis unfolding step by auto
    next
      case notyet: False
      with mono have "\<not> T \<le> recordedIn ?F" by simp
      with False notyet show ?thesis unfolding step snoc.IH by simp
    qed
  qed
qed

lemma fst_fold_arrivalStep:
  "fst (fold (arrivalStep es tgt) vs a) =
     (case tgt of
        None \<Rightarrow> fst a
      | Some T \<Rightarrow>
          if (\<exists>v \<in> set vs. \<not> secretRejected es (secret v)) \<and>
             T \<le> recordedIn (fold (arrivalEffect es True) vs (snd a))
          then Some (deriveStatus (succeededIn (fold (arrivalEffect es True) vs (snd a))) T)
          else fst a)"
  by (cases tgt) (simp_all add: fst_fold_arrivalStep_None fst_fold_arrivalStep_Some)

subsection \<open>Well-formedness at every observation point\<close>

lemma callback_wellFormed: "wellFormed d \<Longrightarrow> wellFormed (snd (POST_callback es now v d))"
  by (rule callback_step(1))

lemma regenerate_wellFormed:
  "wellFormed d \<Longrightarrow> wellFormed (snd (POST_regenerate session cid platforms d))"
  by (auto simp: POST_regenerate_def Let_def wellFormed_def distinct_map_filter list_all_iff
           split: option.splits)

lemma PATCH_output_cases:
  "PATCH_output session cid outputId inp d = (res, d') \<Longrightarrow>
   (d' = d \<and> (\<exists>e. res = Inl e)) \<or>
   (\<exists>found. find (\<lambda>r. po_id r = outputId \<and> contentId r = cid) (outputs d) = Some found \<and>
      d' = updateOutput outputId (applyEdit inp found) d \<and> (\<exists>x. res = Inr x))"
  by (auto simp: PATCH_output_def Let_def split: if_splits option.splits)

lemma edit_wellFormed:
  "wellFormed d \<Longrightarrow> wellFormed (snd (PATCH_output session cid outputId inp d))"
  using PATCH_output_cases [of session cid outputId inp d
          "fst (PATCH_output session cid outputId inp d)"
          "snd (PATCH_output session cid outputId inp d)"]
  by (auto simp: wellFormed_update keepsKeys_applyEdit)

lemma scheduleLoop_wellFormed:
  "wellFormed d \<Longrightarrow> wellFormed (snd (scheduleLoop tz inp cfgs now rs acc d))"
  by (induction tz inp cfgs now rs acc d rule: scheduleLoop.induct)
     (auto simp: wellFormed_update keepsKeys_scheduled split: option.splits)

lemma schedule_wellFormed:
  "wellFormed d \<Longrightarrow> wellFormed (snd (POST_schedule tz session now cid sched d))"
  by (auto simp: POST_schedule_def scheduleLoop_wellFormed split: option.splits)

lemma reachable_wellFormed: "reachable d \<Longrightarrow> wellFormed d"
proof (induction rule: reachable.induct)
  case (fresh d)
  then show ?case by (simp add: wellFormed_def)
qed (simp_all add: callback_wellFormed regenerate_wellFormed edit_wellFormed schedule_wellFormed)

subsection \<open>User edits\<close>

lemma eraseEdit_applyEdit [simp]: "eraseEdit (applyEdit inp found r) = eraseEdit r"
  by (simp add: eraseEdit_def applyEdit_def)

lemma filter_other_ids:
  "(\<And>r. po_id (f r) = po_id r) \<Longrightarrow>
   filter (\<lambda>r. po_id r \<noteq> i) (map (\<lambda>r. if po_id r = i then f r else r) xs) =
   filter (\<lambda>r. po_id r \<noteq> i) xs"
  by (induction xs) auto

subsection \<open>Best posting times\<close>














subsection \<open>Unfolding the sample data\<close>

lemmas sample_defs =
  sampleDb_def sampleContent_def sampleRow_def succeededJob_def failedJob_def outputlessJob_def

lemmas callback_defs =
  POST_callback_def secretRejected_def recordResult_def findOutput_def createOutput_def
  updateOutput_def aggregateStatus_def outputCount_def successCount_def platformOutputs_def
  deriveStatus_def failureMessage_def successData_def failedData_def orKeep_def Let_def

section \<open>The claims\<close>

subsection \<open>C1: the aggregate status after a recorded result\<close>

text \<open>
  Claim C1 says that a recorded result with fewer rows than target platforms leaves the
  unit in, or moves it to, \<open>processing\<close>. The handler writes the content row only inside
  \<open>outputCount >= targetCount\<close>: a unit created as \<open>pending\<close> with two target platforms
  is still \<open>pending\<close> after its first completion has been recorded.
\<close>

theorem first_completion_leaves_pending:
  "fst (POST_callback None 5 (succeededJob instagram ''Hello alpha'')
          (sampleDb Pending [instagram, linkedin] [])) = Inr Acknowledged \<and>
   outputCount (snd (POST_callback None 5 (succeededJob instagram ''Hello alpha'')
          (sampleDb Pending [instagram, linkedin] []))) 1
     < length (targetPlatforms (sampleContent Pending [instagram, linkedin])) \<and>
   map_option status
     (contents (snd (POST_callback None 5 (succeededJob instagram ''Hello alpha'')
          (sampleDb Pending [instagram, linkedin] []))) 1) = Some Pending \<and>
   map_option status
     (contents (snd (POST_callback None 5 (succeededJob instagram ''Hello alpha'')
          (sampleDb Pending [instagram, linkedin] []))) 1) \<noteq> Some Processing"
  by (simp add: callback_defs sample_defs)

text \<open>
  Claim C1, as amended. Every acknowledged callback for an existing unit re-derives the
  status from T (the number of target platforms), R (the rows recorded for the unit) and
  S (those with a copy), all read after the write. When R < T the stored status and
  error message are left as they were. When R \<ge> T (in particular R = T) the status
  becomes \<open>complete\<close> if S = T, \<open>failed\<close> if S = 0 \<noteq> T, \<open>partial\<close> otherwise, and the
  error message is set exactly when that status is \<open>failed\<close>.
\<close>

theorem callback_rederives_status:
  assumes "POST_callback expectedSecret now v d = (Inr Acknowledged, d')"
      and "contents d (content_id v) = Some content"
  shows "\<exists>content'. contents d' (content_id v) = Some content' \<and>
           targetPlatforms content' = targetPlatforms content \<and>
           (outputCount d' (content_id v) < length (targetPlatforms content) \<longrightarrow>
              status content' = status content \<and> errorMessage content' = errorMessage content) \<and>
           (length (targetPlatforms content) \<le> outputCount d' (content_id v) \<longrightarrow>
              (successCount d' (content_id v) = length (targetPlatforms content) \<longrightarrow>
                 status content' = Complete) \<and>
              (successCount d' (content_id v) \<noteq> length (targetPlatforms content) \<and>
               successCount d' (content_id v) = 0 \<longrightarrow> status content' = Failed) \<and>
              (successCount d' (content_id v) \<noteq> length (targetPlatforms content) \<and>
               successCount d' (content_id v) \<noteq> 0 \<longrightarrow> status content' = Partial) \<and>
              (errorMessage content' \<noteq> None \<longleftrightarrow> status content' = Failed))"
proof -
  from POST_callback_cases [OF assms(1)]
  obtain d1 where rec: "recordResult v d = Some d1" and d': "d' = aggregateStatus now v d1"
    by auto
  from recordResult_contents [OF rec] assms(2)
  have c1: "contents d1 (content_id v) = Some content" by simp
  from aggregateStatus_content [OF c1, of now]
  obtain content' where
    a: "contents (aggregateStatus now v d1) (content_id v) = Some content'" and
    b: "targetPlatforms content' = targetPlatforms content" and
    c: "outputCount d1 (content_id v) < length (targetPlatforms content) \<longrightarrow> content' = content" and
    e: "length (targetPlatforms content) \<le> outputCount d1 (content_id v) \<longrightarrow>
              status content' =
                deriveStatus (successCount d1 (content_id v)) (length (targetPlatforms content)) \<and>
              (errorMessage content' \<noteq> None \<longleftrightarrow> status content' = Failed)"
    by blast
  show ?thesis
    using a b c e unfolding d' by (auto simp: deriveStatus_def)
qed

text \<open>
  Two runs of the theorem: the second of two completions (one success, then one failure)
  makes the unit \<open>partial\<close> with no error message; the first of two leaves status and
  error message as stored.
\<close>

theorem callback_rederives_status_witness:
  "POST_callback None 9 (failedJob linkedin)
     (sampleDb Processing [instagram, linkedin] [sampleRow 1 instagram (Some ''Hello alpha'')]) =
   (Inr Acknowledged,
    snd (POST_callback None 9 (failedJob linkedin)
     (sampleDb Processing [instagram, linkedin] [sampleRow 1 instagram (Some ''Hello alpha'')]))) \<and>
   contents (sampleDb Processing [instagram, linkedin] [sampleRow 1 instagram (Some ''Hello alpha'')])
     (content_id (failedJob linkedin)) = Some (sampleContent Processing [instagram, linkedin]) \<and>
   map_option status (contents (snd (POST_callback None 9 (failedJob linkedin)
     (sampleDb Processing [instagram, linkedin] [sampleRow 1 instagram (Some ''Hello alpha'')]))) 1)
     = Some Partial \<and>
   map_option errorMessage (contents (snd (POST_callback None 9 (failedJob linkedin)
     (sampleDb Processing [instagram, linkedin] [sampleRow 1 instagram (Some ''Hello alpha'')]))) 1)
     = Some None \<and>
   map_option status (contents (snd (POST_callback None 5 (succeededJob instagram ''Hello alpha'')
     (sampleDb Processing [instagram, linkedin] []))) 1) = Some Processing"
  using callback_rederives_status [of None 9 "failedJob linkedin"
          "sampleDb Processing [instagram, linkedin] [sampleRow 1 instagram (Some ''Hello alpha'')]"
          "snd (POST_callback None 9 (failedJob linkedin)
            (sampleDb Processing [instagram, linkedin] [sampleRow 1 instagram (Some ''Hello alpha'')]))"
          "sampleContent Processing [instagram, linkedin]"]
        callback_rederives_status [of None 5 "succeededJob instagram ''Hello alpha''"
          "sampleDb Processing [instagram, linkedin] []"
          "snd (POST_callback None 5 (succeededJob instagram ''Hello alpha'')
            (sampleDb Processing [instagram, linkedin] []))"
          "sampleContent Processing [instagram, linkedin]"]
  by (simp add: callback_defs sample_defs)

subsection \<open>C2: arrival order\<close>

text \<open>
  Claim C2. Take any store the database engine allows, any unit, and completions for
  pairwise different platforms of that unit (one outcome per platform, as when they
  cover the target platforms). Recording them one at a time through the callback gives
  the unit the same status in every arrival order, whatever the instants of arrival.
\<close>

theorem arrival_order_irrelevant:
  assumes "wellFormed d"
      and "\<forall>a \<in> set xs. content_id (snd a) = cid"
      and "distinct (map (\<lambda>a. cb_platform (snd a)) xs)"
      and "mset (map snd xs) = mset (map snd ys)"
  shows "map_option status (contents (recordAll es xs d) cid) =
         map_option status (contents (recordAll es ys d) cid)"
proof -
  let ?vs = "map snd xs" and ?ws = "map snd ys"
  from assms(4) have sets: "set ?vs = set ?ws" by (rule mset_eq_setD)
  from assms(2) have "\<forall>v \<in> set ?vs. content_id v = cid" by simp
  then have "\<forall>v \<in> set ?ws. content_id v = cid" by (simp only: sets)
  then have ycid: "\<forall>a \<in> set ys. content_id (snd a) = cid" by simp
  from assms(3) have dist: "distinct (map cb_platform ?vs)" by (simp add: comp_def)
  then have inj: "inj_on cb_platform (set ?vs)"
    by (simp only: distinct_map)
  have comm: "arrivalEffect es ce v \<circ> arrivalEffect es ce w =
              arrivalEffect es ce w \<circ> arrivalEffect es ce v"
    if "v \<in> set ?vs" "w \<in> set ?vs" for v w ce
  proof (cases "v = w")
    case True
    then show ?thesis by simp
  next
    case False
    with inj that have "cb_platform v \<noteq> cb_platform w" by (auto dest: inj_onD)
    then show ?thesis by (rule arrivalEffect_commute)
  qed
  have folds: "fold (arrivalEffect es ce) ?vs = fold (arrivalEffect es ce) ?ws" for ce
    by (rule fold_multiset_equiv [OF comm assms(4)])
  have "fst (fold (arrivalStep es (unitTarget d cid)) ?vs (unitState d cid)) =
        fst (fold (arrivalStep es (unitTarget d cid)) ?ws (unitState d cid))"
    unfolding fst_fold_arrivalStep folds sets ..
  then have "fst (unitState (recordAll es xs d) cid) = fst (unitState (recordAll es ys d) cid)"
    by (simp only: recordAll_fold [OF assms(1,2)] recordAll_fold [OF assms(1) ycid])
  then show ?thesis by (simp add: unitState_def)
qed

text \<open>
  Three target platforms, two successes and one failure: arriving as Instagram,
  LinkedIn, Twitter or as Twitter, Instagram, LinkedIn, the unit ends \<open>partial\<close>.
\<close>

theorem arrival_order_irrelevant_witness:
  "wellFormed (sampleDb Processing [instagram, linkedin, twitter] []) \<and>
   map (\<lambda>a. content_id (snd a))
     [(10, succeededJob instagram ''a''), (20, succeededJob linkedin ''b''), (30, failedJob twitter)]
     = [1, 1, 1] \<and>
   distinct (map (\<lambda>a. cb_platform (snd a))
     [(10, succeededJob instagram ''a''), (20, succeededJob linkedin ''b''), (30, failedJob twitter)]) \<and>
   mset (map snd
     [(10::int, succeededJob instagram ''a''), (20, succeededJob linkedin ''b''), (30, failedJob twitter)]) =
   mset (map snd
     [(11::int, failedJob twitter), (12, succeededJob instagram ''a''), (13, succeededJob linkedin ''b'')]) \<and>
   map_option status (contents (recordAll None
     [(10, succeededJob instagram ''a''), (20, succeededJob linkedin ''b''), (30, failedJob twitter)]
     (sampleDb Processing [instagram, linkedin, twitter] [])) 1) =
   map_option status (contents (recordAll None
     [(11, failedJob twitter), (12, succeededJob instagram ''a''), (13, succeededJob linkedin ''b'')]
     (sampleDb Processing [instagram, linkedin, twitter] [])) 1) \<and>
   map_option status (contents (recordAll None
     [(11, failedJob twitter), (12, succeededJob instagram ''a''), (13, succeededJob linkedin ''b'')]
     (sampleDb Processing [instagram, linkedin, twitter] [])) 1) = Some Partial"
proof -
  have wf: "wellFormed (sampleDb Processing [instagram, linkedin, twitter] [])"
    by (simp add: wellFormed_def sample_defs)
  have cid: "\<forall>a \<in> set [(10::int, succeededJob instagram ''a''), (20, succeededJob linkedin ''b''),
                        (30, failedJob twitter)]. content_id (snd a) = 1"
    by (simp add: sample_defs)
  have dist: "distinct (map (\<lambda>a. cb_platform (snd a))
     [(10::int, succeededJob instagram ''a''), (20, succeededJob linkedin ''b''), (30, failedJob twitter)])"
    by (simp add: sample_defs)
  have perm: "mset (map snd
     [(10::int, succeededJob instagram ''a''), (20, succeededJob linkedin ''b''), (30, failedJob twitter)]) =
   mset (map snd
     [(11::int, failedJob twitter), (12, succeededJob instagram ''a''), (13, succeededJob linkedin ''b'')])"
    by (simp add: add_mset_commute)
  have final: "map_option status (contents (recordAll None
     [(11, failedJob twitter), (12, succeededJob instagram ''a''), (13, succeededJob linkedin ''b'')]
     (sampleDb Processing [instagram, linkedin, twitter] [])) 1) = Some Partial"
    by (simp add: callback_defs sample_defs)
  from arrival_order_irrelevant [OF wf cid dist perm, of None] wf dist perm final
  show ?thesis by (simp add: sample_defs)
qed

subsection \<open>C3: one stored result per pair\<close>

text \<open>
  Claim C3. At every observation point (every store the handlers can produce from one
  without output rows) there is at most one row for each (content, platform) pair. A
  callback issued there, on either branch, rewrites the row of its pair in place when
  there is one, leaving the list of pairs and every row of another pair as they are;
  when there is none it adds at most one row, and that row is for its pair. When the
  callback passes the secret check, the row of the pair then holds the reported
  outcome: a null copy after a failure, the reported copy after a success that carries
  one; a success without output, or without a copy for an existing row, leaves the copy
  as it was.
\<close>

theorem at_most_one_result_per_pair:
  assumes "reachable d"
  shows "(\<forall>cid p. length (filter (\<lambda>r. contentId r = cid \<and> platform r = p) (outputs d)) \<le> 1) \<and>
         (\<forall>es now v.
            (findOutput d (content_id v) (cb_platform v) \<noteq> None \<longrightarrow>
               map pairKey (outputs (snd (POST_callback es now v d))) = map pairKey (outputs d) \<and>
               filter (\<lambda>r. pairKey r \<noteq> (content_id v, cb_platform v))
                 (outputs (snd (POST_callback es now v d))) =
               filter (\<lambda>r. pairKey r \<noteq> (content_id v, cb_platform v)) (outputs d)) \<and>
            (findOutput d (content_id v) (cb_platform v) = None \<longrightarrow>
               outputs (snd (POST_callback es now v d)) = outputs d \<or>
               (\<exists>row. outputs (snd (POST_callback es now v d)) = outputs d @ [row] \<and>
                      pairKey row = (content_id v, cb_platform v))) \<and>
            (\<not> secretRejected es (secret v) \<longrightarrow>
               (\<forall>ex. findOutput d (content_id v) (cb_platform v) = Some ex \<longrightarrow>
                  map_option rewrittenCopy
                    (findOutput (snd (POST_callback es now v d)) (content_id v) (cb_platform v)) =
                  Some (case cb_status v of
                          CbFailed \<Rightarrow> None
                        | CbSuccess \<Rightarrow>
                            (case cb_output v of
                               None \<Rightarrow> rewrittenCopy ex
                             | Some out \<Rightarrow>
                                 (case rewritten_copy out of
                                    None \<Rightarrow> rewrittenCopy ex
                                  | Some c \<Rightarrow> Some c)))) \<and>
               (findOutput d (content_id v) (cb_platform v) = None \<and>
                contents d (content_id v) \<noteq> None \<longrightarrow>
                  map_option rewrittenCopy
                    (findOutput (snd (POST_callback es now v d)) (content_id v) (cb_platform v)) =
                  (case cb_status v of
                     CbFailed \<Rightarrow> Some None
                   | CbSuccess \<Rightarrow>
                       (case cb_output v of
                          None \<Rightarrow> None
                        | Some out \<Rightarrow> Some (rewritten_copy out))))))"
proof (intro conjI allI)
  note wf = reachable_wellFormed [OF assms]
  fix cid p
  have "distinct (map pairKey (outputs d))"
    using wf by (simp add: wellFormed_def)
  from distinct_key_count [OF this, of "(cid, p)"]
  show "length (filter (\<lambda>r. contentId r = cid \<and> platform r = p) (outputs d)) \<le> 1"
    by (simp add: pairKey_def)
next
  note wf = reachable_wellFormed [OF assms]
  fix es now v
  obtain res d' where eq: "POST_callback es now v d = (res, d')"
    by (cases "POST_callback es now v d")
  from POST_callback_cases [OF eq]
  show "findOutput d (content_id v) (cb_platform v) \<noteq> None \<longrightarrow>
               map pairKey (outputs (snd (POST_callback es now v d))) = map pairKey (outputs d) \<and>
               filter (\<lambda>r. pairKey r \<noteq> (content_id v, cb_platform v))
                 (outputs (snd (POST_callback es now v d))) =
               filter (\<lambda>r. pairKey r \<noteq> (content_id v, cb_platform v)) (outputs d)"
    using eq recordResult_table [OF wf, of v] by auto
  from POST_callback_cases [OF eq]
  show "findOutput d (content_id v) (cb_platform v) = None \<longrightarrow>
               outputs (snd (POST_callback es now v d)) = outputs d \<or>
               (\<exists>row. outputs (snd (POST_callback es now v d)) = outputs d @ [row] \<and>
                      pairKey row = (content_id v, cb_platform v))"
    using eq recordResult_table [OF wf, of v] by auto
  show "\<not> secretRejected es (secret v) \<longrightarrow>
               (\<forall>ex. findOutput d (content_id v) (cb_platform v) = Some ex \<longrightarrow>
                  map_option rewrittenCopy
                    (findOutput (snd (POST_callback es now v d)) (content_id v) (cb_platform v)) =
                  Some (case cb_status v of
                          CbFailed \<Rightarrow> None
                        | CbSuccess \<Rightarrow>
                            (case cb_output v of
                               None \<Rightarrow> rewrittenCopy ex
                             | Some out \<Rightarrow>
                                 (case rewritten_copy out of
                                    None \<Rightarrow> rewrittenCopy ex
                                  | Some c \<Rightarrow> Some c)))) \<and>
               (findOutput d (content_id v) (cb_platform v) = None \<and>
                contents d (content_id v) \<noteq> None \<longrightarrow>
                  map_option rewrittenCopy
                    (findOutput (snd (POST_callback es now v d)) (content_id v) (cb_platform v)) =
                  (case cb_status v of
                     CbFailed \<Rightarrow> Some None
                   | CbSuccess \<Rightarrow>
                       (case cb_output v of
                          None \<Rightarrow> None
                        | Some out \<Rightarrow> Some (rewritten_copy out))))"
  proof (intro impI)
    assume ok: "\<not> secretRejected es (secret v)"
    from callback_step(3) [OF wf, of es now v]
    have "snd (unitState (snd (POST_callback es now v d)) (content_id v)) =
          snd (arrivalStep es (unitTarget d (content_id v)) v (unitState d (content_id v)))"
      by simp
    then have view: "copyView (snd (POST_callback es now v d)) (content_id v) (cb_platform v) =
          outcomeCopy v (contents d (content_id v) \<noteq> None)
            (copyView d (content_id v) (cb_platform v))"
      using ok by (simp add: unitState_def snd_arrivalStep arrivalEffect_def unitTarget_def)
    have found: "map_option rewrittenCopy
                    (findOutput (snd (POST_callback es now v d)) (content_id v) (cb_platform v)) =
                  Some (case cb_status v of
                          CbFailed \<Rightarrow> None
                        | CbSuccess \<Rightarrow>
                            (case cb_output v of
                               None \<Rightarrow> rewrittenCopy ex
                             | Some out \<Rightarrow>
                                 (case rewritten_copy out of
                                    None \<Rightarrow> rewrittenCopy ex
                                  | Some c \<Rightarrow> Some c)))"
      if "findOutput d (content_id v) (cb_platform v) = Some ex" for ex
      using view that
      by (simp add: copyView_def outcomeCopy_def orKeep_def
            split: CallbackStatus.splits option.splits)
    have created: "map_option rewrittenCopy
                    (findOutput (snd (POST_callback es now v d)) (content_id v) (cb_platform v)) =
                  (case cb_status v of
                     CbFailed \<Rightarrow> Some None
                   | CbSuccess \<Rightarrow>
                       (case cb_output v of
                          None \<Rightarrow> None
                        | Some out \<Rightarrow> Some (rewritten_copy out)))"
      if "findOutput d (content_id v) (cb_platform v) = None"
         "contents d (content_id v) \<noteq> None"
      using view that
      by (simp add: copyView_def outcomeCopy_def
            split: CallbackStatus.splits option.splits)
    from found created
    show "(\<forall>ex. findOutput d (content_id v) (cb_platform v) = Some ex \<longrightarrow>
                  map_option rewrittenCopy
                    (findOutput (snd (POST_callback es now v d)) (content_id v) (cb_platform v)) =
                  Some (case cb_status v of
                          CbFailed \<Rightarrow> None
                        | CbSuccess \<Rightarrow>
                            (case cb_output v of
                               None \<Rightarrow> rewrittenCopy ex
                             | Some out \<Rightarrow>
                                 (case rewritten_copy out of
                                    None \<Rightarrow> rewrittenCopy ex
                                  | Some c \<Rightarrow> Some c)))) \<and>
               (findOutput d (content_id v) (cb_platform v) = None \<and>
                contents d (content_id v) \<noteq> None \<longrightarrow>
                  map_option rewrittenCopy
                    (findOutput (snd (POST_callback es now v d)) (content_id v) (cb_platform v)) =
                  (case cb_status v of
                     CbFailed \<Rightarrow> Some None
                   | CbSuccess \<Rightarrow>
                       (case cb_output v of
                          None \<Rightarrow> None
                        | Some out \<Rightarrow> Some (rewritten_copy out))))"
      by (intro conjI allI impI) (simp, simp)
  qed
qed

text \<open>
  After Instagram's success has been recorded, a failure reported for the same pair
  rewrites that row: the table still has the one pair, and its copy is now null.
\<close>

theorem at_most_one_result_per_pair_witness:
  "reachable (snd (POST_callback None 5 (succeededJob instagram ''Hello alpha'')
                     (sampleDb Pending [instagram, linkedin] []))) \<and>
   findOutput (snd (POST_callback None 5 (succeededJob instagram ''Hello alpha'')
                     (sampleDb Pending [instagram, linkedin] [])))
     (content_id (failedJob instagram)) (cb_platform (failedJob instagram)) \<noteq> None \<and>
   map pairKey (outputs (snd (POST_callback None 6 (failedJob instagram)
     (snd (POST_callback None 5 (succeededJob instagram ''Hello alpha'')
                     (sampleDb Pending [instagram, linkedin] [])))))) = [(1, instagram)] \<and>
   map rewrittenCopy (outputs (snd (POST_callback None 6 (failedJob instagram)
     (snd (POST_callback None 5 (succeededJob instagram ''Hello alpha'')
                     (sampleDb Pending [instagram, linkedin] [])))))) = [None]"
proof -
  have r: "reachable (snd (POST_callback None 5 (succeededJob instagram ''Hello alpha'')
                     (sampleDb Pending [instagram, linkedin] [])))"
    by (rule reachable.callback, rule reachable.fresh) (simp add: sample_defs)
  have f: "findOutput (snd (POST_callback None 5 (succeededJob instagram ''Hello alpha'')
                     (sampleDb Pending [instagram, linkedin] [])))
     (content_id (failedJob instagram)) (cb_platform (failedJob instagram)) \<noteq> None"
    by (simp add: callback_defs sample_defs)
  have k: "map pairKey (outputs (snd (POST_callback None 5 (succeededJob instagram ''Hello alpha'')
                     (sampleDb Pending [instagram, linkedin] [])))) = [(1, instagram)]"
    by (simp add: callback_defs sample_defs pairKey_def)
  have c: "map rewrittenCopy (outputs (snd (POST_callback None 6 (failedJob instagram)
     (snd (POST_callback None 5 (succeededJob instagram ''Hello alpha'')
                     (sampleDb Pending [instagram, linkedin] [])))))) = [None]"
    by (simp add: callback_defs sample_defs)
  from at_most_one_result_per_pair [OF r, THEN conjunct2, THEN spec, THEN spec, THEN spec,
         THEN conjunct1, of "failedJob instagram" None 6] f
  have "map pairKey (outputs (snd (POST_callback None 6 (failedJob instagram)
     (snd (POST_callback None 5 (succeededJob instagram ''Hello alpha'')
                     (sampleDb Pending [instagram, linkedin] [])))))) =
        map pairKey (outputs (snd (POST_callback None 5 (succeededJob instagram ''Hello alpha'')
                     (sampleDb Pending [instagram, linkedin] []))))"
    by blast
  with r f k c show ?thesis by simp
qed

subsection \<open>C4: a rejected custom schedule\<close>

text \<open>
  Claim C4 wants a custom schedule with a timestamp that is not in the future to be
  rejected with \<open>INVALID_SCHEDULE\<close> without any timestamp being stored. The loop
  validates and writes row by row: at instant 1000, with 2000 supplied for Instagram,
  500 for LinkedIn and 3000 for each other platform, the call is rejected naming
  LinkedIn after Instagram's row has already received its timestamp.
\<close>

theorem rejected_schedule_keeps_earlier_writes:
  "fst (POST_schedule utcZone True 1000 1 lateForLinkedin
          (sampleDb Complete [instagram, linkedin]
             [sampleRow 1 instagram (Some ''a''), sampleRow 2 linkedin (Some ''b'')])) =
     Inl (INVALID_SCHEDULE, ''Scheduled time for linkedin must be in the future'') \<and>
   map scheduledFor
     (outputs (sampleDb Complete [instagram, linkedin]
             [sampleRow 1 instagram (Some ''a''), sampleRow 2 linkedin (Some ''b'')])) =
     [None, None] \<and>
   map scheduledFor
     (outputs (snd (POST_schedule utcZone True 1000 1 lateForLinkedin
          (sampleDb Complete [instagram, linkedin]
             [sampleRow 1 instagram (Some ''a''), sampleRow 2 linkedin (Some ''b'')])))) =
     [Some 2000, None]"
  by (simp add: POST_schedule_def sample_defs lateForLinkedin_def
      platformOutputs_def profileConfigs_def eligible_def updateOutput_def)

subsection \<open>C5: regeneration deletes the named results only\<close>

text \<open>
  Claim C5. A regenerate call by a signed-in user that names a non-empty list of target
  platforms of an existing unit is accepted; afterwards no row of the unit for a named
  platform is left, the rows of every other (content, platform) pair are the same rows
  in the same order, and the unit's status is \<open>processing\<close>.
\<close>

theorem regenerate_deletes_exactly_named:
  assumes "session" and "platforms \<noteq> []" and "contents d cid = Some content"
      and "set platforms \<subseteq> set (targetPlatforms content)"
  shows "fst (POST_regenerate session cid platforms d) =
           Inr \<lparr>rg_content_id = cid, regenerating_platforms = platforms, rg_status = Processing\<rparr> \<and>
         filter (\<lambda>r. contentId r = cid \<and> platform r \<in> set platforms)
           (outputs (snd (POST_regenerate session cid platforms d))) = [] \<and>
         filter (\<lambda>r. \<not> (contentId r = cid \<and> platform r \<in> set platforms))
           (outputs (snd (POST_regenerate session cid platforms d))) =
         filter (\<lambda>r. \<not> (contentId r = cid \<and> platform r \<in> set platforms)) (outputs d) \<and>
         length (outputs (snd (POST_regenerate session cid platforms d))) =
           length (outputs d) -
           length (filter (\<lambda>r. contentId r = cid \<and> platform r \<in> set platforms) (outputs d)) \<and>
         map_option status (contents (snd (POST_regenerate session cid platforms d)) cid) =
           Some Processing"
proof -
  from assms(4) have "filter (\<lambda>p. p \<notin> set (targetPlatforms content)) platforms = []"
    by (auto simp: filter_empty_conv)
  then have eq: "POST_regenerate session cid platforms d =
     (Inr \<lparr>rg_content_id = cid, regenerating_platforms = platforms, rg_status = Processing\<rparr>,
      d\<lparr>outputs := filter (\<lambda>r. \<not> (contentId r = cid \<and> platform r \<in> set platforms)) (outputs d),
        contents := (contents d)(cid \<mapsto> content\<lparr>status := Processing\<rparr>)\<rparr>)"
    using assms(1-3) by (simp add: POST_regenerate_def Let_def)
  have len: "length (filter (\<lambda>r. \<not> (contentId r = cid \<and> platform r \<in> set platforms)) (outputs d)) =
        length (outputs d) -
        length (filter (\<lambda>r. contentId r = cid \<and> platform r \<in> set platforms) (outputs d))"
    using sum_length_filter_compl
      [of "\<lambda>r. contentId r = cid \<and> platform r \<in> set platforms" "outputs d"]
    by simp
  show ?thesis
    unfolding eq using len by (simp add: filter_empty_conv)
qed

text \<open>
  A complete unit with results for Instagram, LinkedIn and Twitter: regenerating
  LinkedIn removes its row and keeps the other two.
\<close>

theorem regenerate_deletes_exactly_named_witness:
  "True \<and> [linkedin] \<noteq> [] \<and>
   contents (sampleDb Complete [instagram, linkedin, twitter]
      [sampleRow 1 instagram (Some ''a''), sampleRow 2 linkedin (Some ''b''),
       sampleRow 3 twitter (Some ''c'')]) 1 = Some (sampleContent Complete [instagram, linkedin, twitter]) \<and>
   set [linkedin] \<subseteq> set (targetPlatforms (sampleContent Complete [instagram, linkedin, twitter])) \<and>
   outputs (snd (POST_regenerate True 1 [linkedin]
     (sampleDb Complete [instagram, linkedin, twitter]
      [sampleRow 1 instagram (Some ''a''), sampleRow 2 linkedin (Some ''b''),
       sampleRow 3 twitter (Some ''c'')]))) =
     [sampleRow 1 instagram (Some ''a''), sampleRow 3 twitter (Some ''c'')] \<and>
   map_option status (contents (snd (POST_regenerate True 1 [linkedin]
     (sampleDb Complete [instagram, linkedin, twitter]
      [sampleRow 1 instagram (Some ''a''), sampleRow 2 linkedin (Some ''b''),
       sampleRow 3 twitter (Some ''c'')]))) 1) = Some Processing"
  using regenerate_deletes_exactly_named [of True "[linkedin]"
          "sampleDb Complete [instagram, linkedin, twitter]
            [sampleRow 1 instagram (Some ''a''), sampleRow 2 linkedin (Some ''b''),
             sampleRow 3 twitter (Some ''c'')]" 1
          "sampleContent Complete [instagram, linkedin, twitter]"]
  by (simp add: POST_regenerate_def sample_defs Let_def)

subsection \<open>C6: regeneration of a platform outside the targets\<close>

text \<open>
  Claim C6. When a signed-in user's regenerate call for an existing unit names a
  platform that is not among the unit's target platforms, the response is
  \<open>INVALID_PLATFORMS\<close> with a message listing exactly the named platforms outside the
  targets, in the order given, and the store (every stored result, the unit's status)
  is returned as it was.
\<close>

theorem regenerate_rejects_foreign_platforms:
  assumes "session" and "contents d cid = Some content"
      and "\<exists>p \<in> set platforms. p \<notin> set (targetPlatforms content)"
  shows "POST_regenerate session cid platforms d =
           (Inl (INVALID_PLATFORMS,
                 ''Platforms not in original target: '' @
                   join '', '' (map platformName
                     (filter (\<lambda>p. p \<notin> set (targetPlatforms content)) platforms))), d)"
proof -
  from assms(3) have ne: "platforms \<noteq> []" by auto
  from assms(3) have "filter (\<lambda>p. p \<notin> set (targetPlatforms content)) platforms \<noteq> []"
    by (simp add: filter_empty_conv)
  then show ?thesis
    using assms(1,2) ne by (simp add: POST_regenerate_def Let_def)
qed

text \<open>Asking for TikTok, LinkedIn and Pinterest on a unit targeting Instagram and LinkedIn.\<close>

theorem regenerate_rejects_foreign_platforms_witness:
  "contents (sampleDb Complete [instagram, linkedin]
      [sampleRow 1 instagram (Some ''a''), sampleRow 2 linkedin (Some ''b'')]) 1 =
     Some (sampleContent Complete [instagram, linkedin]) \<and>
   tiktok \<in> set [tiktok, linkedin, pinterest] \<and>
   tiktok \<notin> set (targetPlatforms (sampleContent Complete [instagram, linkedin])) \<and>
   POST_regenerate True 1 [tiktok, linkedin, pinterest]
     (sampleDb Complete [instagram, linkedin]
        [sampleRow 1 instagram (Some ''a''), sampleRow 2 linkedin (Some ''b'')]) =
     (Inl (INVALID_PLATFORMS, ''Platforms not in original target: tiktok, pinterest''),
      sampleDb Complete [instagram, linkedin]
        [sampleRow 1 instagram (Some ''a''), sampleRow 2 linkedin (Some ''b'')])"
  using regenerate_rejects_foreign_platforms [of True
          "sampleDb Complete [instagram, linkedin]
             [sampleRow 1 instagram (Some ''a''), sampleRow 2 linkedin (Some ''b'')]" 1
          "sampleContent Complete [instagram, linkedin]" "[tiktok, linkedin, pinterest]"]
  by (simp add: sample_defs)

subsection \<open>C7: placeholders without a value\<close>

text \<open>
  Claim C7 wants every occurrence of a documented placeholder whose value is absent to
  become the empty string. \<open>buildUserPrompt\<close> replaces the first \<open>{{title}}\<close> and the
  first \<open>{{body}}\<close> only, and knows no other placeholder; the workflow's Function node
  inserts the text \<open>null\<close> for a null value. In each of the three prompts below
  placeholder text, or \<open>null\<close>, is left where the empty string is documented.
\<close>

theorem placeholders_left_in_prompt:
  "buildUserPrompt (Some ''Tone: {{global_tone}}'') ''T'' ''B'' = ''Tone: {{global_tone}}'' \<and>
   buildUserPrompt (Some ''{{title}} - {{title}}'') ''T'' ''B'' = ''T - {{title}}'' \<and>
   map_option userPrompt (buildAIPrompt sampleN8nContent sampleBrandProfile nullTonePrompt) =
     Some ''Tone: null''"
  by (simp add: buildUserPrompt_def buildAIPrompt_def replace_def sampleN8nContent_def
        sampleBrandProfile_def nullTonePrompt_def fewShotBlock_def Let_def)

subsection \<open>C8: user edits\<close>

text \<open>
  Claim C8. An edit call changes nothing but the override flag, the edited copy and the
  edited hashtags of the rows with the given key: the content table (and with it every
  unit's status) is as before, and so are all rows once those three fields are blanked
  out, in particular the generated copy and hashtags. When the call is accepted, the
  stored result carries the override flag and each supplied field holds the supplied
  value; a rejected call changes nothing at all.
\<close>

theorem edit_sets_override_only:
  assumes "PATCH_output session cid outputId inp d = (res, d')"
  shows "contents d' = contents d \<and>
         map eraseEdit (outputs d') = map eraseEdit (outputs d) \<and>
         map rewrittenCopy (outputs d') = map rewrittenCopy (outputs d) \<and>
         map hashtags (outputs d') = map hashtags (outputs d) \<and>
         filter (\<lambda>r. po_id r \<noteq> outputId) (outputs d') =
           filter (\<lambda>r. po_id r \<noteq> outputId) (outputs d) \<and>
         ((\<exists>e. res = Inl e) \<longrightarrow> d' = d) \<and>
         ((\<exists>x. res = Inr x) \<longrightarrow>
            (\<exists>r \<in> set (outputs d'). po_id r = outputId \<and> contentId r = cid) \<and>
            (\<forall>r \<in> set (outputs d'). po_id r = outputId \<longrightarrow>
               userEdited r \<and>
               (\<forall>c. in_editedCopy inp = Some c \<longrightarrow> editedCopy r = Some c) \<and>
               (\<forall>h. in_editedHashtags inp = Some h \<longrightarrow> editedHashtags r = h)))"
proof -
  from PATCH_output_cases [OF assms]
  consider (rejected) "d' = d" "\<exists>e. res = Inl e"
    | (accepted) found where
        "find (\<lambda>r. po_id r = outputId \<and> contentId r = cid) (outputs d) = Some found"
        "d' = updateOutput outputId (applyEdit inp found) d" "\<exists>x. res = Inr x"
    by blast
  then show ?thesis
  proof cases
    case rejected
    then show ?thesis by auto
  next
    case accepted
    from accepted(1) have mem: "found \<in> set (outputs d)" "po_id found = outputId" "contentId found = cid"
      by (auto simp: find_Some_iff)
    have 1: "contents d' = contents d" by (simp add: accepted(2))
    have 2: "map eraseEdit (outputs d') = map eraseEdit (outputs d)"
      by (simp add: accepted(2) updateOutput_def)
    have 3: "map rewrittenCopy (outputs d') = map rewrittenCopy (outputs d)"
      by (simp add: accepted(2) updateOutput_def applyEdit_def)
    have 4: "map hashtags (outputs d') = map hashtags (outputs d)"
      by (simp add: accepted(2) updateOutput_def applyEdit_def)
    have 5: "filter (\<lambda>r. po_id r \<noteq> outputId) (outputs d') =
           filter (\<lambda>r. po_id r \<noteq> outputId) (outputs d)"
      unfolding accepted(2) updateOutput_def
      by (simp add: filter_other_ids applyEdit_def)
    have stored: "applyEdit inp found found \<in> set (outputs d')"
      using mem(1,2) by (auto simp: accepted(2) updateOutput_def intro!: image_eqI [of _ _ found])
    have keys: "po_id (applyEdit inp found found) = outputId \<and>
                contentId (applyEdit inp found found) = cid"
      using mem(2,3) by (simp add: applyEdit_def)
    have 6: "\<exists>r \<in> set (outputs d'). po_id r = outputId \<and> contentId r = cid"
      using keys stored by (rule bexI [where x = "applyEdit inp found found"])
    have 7: "\<forall>r \<in> set (outputs d'). po_id r = outputId \<longrightarrow>
               userEdited r \<and>
               (\<forall>c. in_editedCopy inp = Some c \<longrightarrow> editedCopy r = Some c) \<and>
               (\<forall>h. in_editedHashtags inp = Some h \<longrightarrow> editedHashtags r = h)"
    proof (intro ballI impI)
      fix r assume r: "r \<in> set (outputs d')" and i: "po_id r = outputId"
      from r have "r \<in> (\<lambda>x. if po_id x = outputId then applyEdit inp found x else x) ` set (outputs d)"
        by (simp add: accepted(2) updateOutput_def)
      then obtain r0 where
        r0: "r = (if po_id r0 = outputId then applyEdit inp found r0 else r0)"
        by (rule imageE)
      have "po_id r0 = outputId"
      proof (rule ccontr)
        assume "po_id r0 \<noteq> outputId"
        with r0 i show False by simp
      qed
      with r0 have "r = applyEdit inp found r0" by simp
      then show "userEdited r \<and>
               (\<forall>c. in_editedCopy inp = Some c \<longrightarrow> editedCopy r = Some c) \<and>
               (\<forall>h. in_editedHashtags inp = Some h \<longrightarrow> editedHashtags r = h)"
        by (simp add: applyEdit_def)
    qed
    from accepted(3) have 8: "(\<exists>e. res = Inl e) \<longrightarrow> d' = d" by auto
    have 9: "(\<exists>x. res = Inr x) \<longrightarrow>
            (\<exists>r \<in> set (outputs d'). po_id r = outputId \<and> contentId r = cid) \<and>
            (\<forall>r \<in> set (outputs d'). po_id r = outputId \<longrightarrow>
               userEdited r \<and>
               (\<forall>c. in_editedCopy inp = Some c \<longrightarrow> editedCopy r = Some c) \<and>
               (\<forall>h. in_editedHashtags inp = Some h \<longrightarrow> editedHashtags r = h))"
      by (intro impI conjI) (rule 6, rule 7)
    show ?thesis
      by (intro conjI) (rule 1, rule 2, rule 3, rule 4, rule 5, rule 8, rule 9)
  qed
qed

text \<open>
  Editing LinkedIn's result (key 2) of a complete unit: the row gets the flag and the
  new copy and hashtags, the generated copy stays, and the unit stays complete.
\<close>

theorem edit_sets_override_only_witness:
  "fst (PATCH_output True 1 2 sampleEdit
     (sampleDb Complete [instagram, linkedin]
        [sampleRow 1 instagram (Some ''Hello alpha''), sampleRow 2 linkedin (Some ''Hello beta'')])) =
     Inr \<lparr>output_id = 2, user_edited = True, edited_copy = Some ''Edited'',
          edited_hashtags = [''#new'']\<rparr> \<and>
   map userEdited (outputs (snd (PATCH_output True 1 2 sampleEdit
     (sampleDb Complete [instagram, linkedin]
        [sampleRow 1 instagram (Some ''Hello alpha''), sampleRow 2 linkedin (Some ''Hello beta'')])))) =
     [False, True] \<and>
   map editedCopy (outputs (snd (PATCH_output True 1 2 sampleEdit
     (sampleDb Complete [instagram, linkedin]
        [sampleRow 1 instagram (Some ''Hello alpha''), sampleRow 2 linkedin (Some ''Hello beta'')])))) =
     [None, Some ''Edited''] \<and>
   map rewrittenCopy (outputs (snd (PATCH_output True 1 2 sampleEdit
     (sampleDb Complete [instagram, linkedin]
        [sampleRow 1 instagram (Some ''Hello alpha''), sampleRow 2 linkedin (Some ''Hello beta'')])))) =
     [Some ''Hello alpha'', Some ''Hello beta''] \<and>
   map_option status (contents (snd (PATCH_output True 1 2 sampleEdit
     (sampleDb Complete [instagram, linkedin]
        [sampleRow 1 instagram (Some ''Hello alpha''), sampleRow 2 linkedin (Some ''Hello beta'')]))) 1) =
     Some Complete"
  using edit_sets_override_only [of True 1 2 sampleEdit
     "sampleDb Complete [instagram, linkedin]
        [sampleRow 1 instagram (Some ''Hello alpha''), sampleRow 2 linkedin (Some ''Hello beta'')]"
     "fst (PATCH_output True 1 2 sampleEdit
        (sampleDb Complete [instagram, linkedin]
          [sampleRow 1 instagram (Some ''Hello alpha''), sampleRow 2 linkedin (Some ''Hello beta'')]))"
     "snd (PATCH_output True 1 2 sampleEdit
        (sampleDb Complete [instagram, linkedin]
          [sampleRow 1 instagram (Some ''Hello alpha''), sampleRow 2 linkedin (Some ''Hello beta'')]))"]
  by (simp add: PATCH_output_def updateOutputSchema_def startsWithHash_def charLimitCheck_def
        profileConfigs_def findConfig_def effectiveCharLimit_def applyEdit_def updateOutput_def
        sampleEdit_def sample_defs Let_def)

subsection \<open>C9: scheduling on best posting times\<close>




subsection \<open>C10: a success without output\<close>

text \<open>
  Claim C10. A callback that passes the secret check, reports \<open>success\<close> and carries no
  \<open>output\<close> object is acknowledged as a success, and the table of stored results after
  it is the table before it: no row is created and none is changed.
\<close>

theorem success_without_output_is_dropped:
  assumes "cb_status v = CbSuccess" and "cb_output v = None"
      and "\<not> secretRejected expectedSecret (secret v)"
  shows "fst (POST_callback expectedSecret now v d) = Inr Acknowledged \<and>
         outputs (snd (POST_callback expectedSecret now v d)) = outputs d"
  using assms
  by (simp add: POST_callback_def recordResult_def Let_def)

text \<open>
  Twitter's job reports success without output while the unit waits for it: the call is
  acknowledged, the two stored results are as before, and the unit is still processing.
\<close>

theorem success_without_output_is_dropped_witness:
  "cb_status (outputlessJob twitter) = CbSuccess \<and> cb_output (outputlessJob twitter) = None \<and>
   \<not> secretRejected None (secret (outputlessJob twitter)) \<and>
   fst (POST_callback None 7 (outputlessJob twitter)
     (sampleDb Processing [instagram, linkedin, twitter]
        [sampleRow 1 instagram (Some ''a''), sampleRow 2 linkedin (Some ''b'')])) = Inr Acknowledged \<and>
   outputs (snd (POST_callback None 7 (outputlessJob twitter)
     (sampleDb Processing [instagram, linkedin, twitter]
        [sampleRow 1 instagram (Some ''a''), sampleRow 2 linkedin (Some ''b'')]))) =
     [sampleRow 1 instagram (Some ''a''), sampleRow 2 linkedin (Some ''b'')] \<and>
   map_option status (contents (snd (POST_callback None 7 (outputlessJob twitter)
     (sampleDb Processing [instagram, linkedin, twitter]
        [sampleRow 1 instagram (Some ''a''), sampleRow 2 linkedin (Some ''b'')]))) 1) =
     Some Processing"
  using success_without_output_is_dropped [of "outputlessJob twitter" None 7
     "sampleDb Processing [instagram, linkedin, twitter]
        [sampleRow 1 instagram (Some ''a''), sampleRow 2 linkedin (Some ''b'')]"]
  by (simp add: callback_defs sample_defs)


end
